theory Spec2Isabelle
  imports Main
begin

section \<open>Documents and channel values\<close>

text \<open>
  The records of \<^verbatim>\<open>dataIngestion.ts\<close>. Every metadata field is optional in the source
  (\<^verbatim>\<open>title?: string\<close>), so it is an option here; \<open>None\<close> is JavaScript's
  \<^verbatim>\<open>undefined\<close>. The price is a number in the data set; the model keeps the
  non-negative integers, which is what the data set holds. A document always has its
  \<^verbatim>\<open>metadata\<close> (the interface requires it, and \<^verbatim>\<open>loadDataset\<close> fills in \<^verbatim>\<open>{}\<close>), so the
  guards \<^verbatim>\<open>d.metadata || {}\<close> of the nodes never take their default.
\<close>

record DocumentMetadata =
  title :: "string option"
  airline :: "string option"
  from_city :: "string option"
  to_city :: "string option"
  country :: "string option"
  airport_code :: "string option"
  airport_name :: "string option"
  price :: "nat option"
  time_approx :: "string option"
  date :: "string option"

record Document =
  pageContent :: string
  metadata :: DocumentMetadata

text \<open>
  A channel of the state holds a string (\<^verbatim>\<open>input\<close>, \<^verbatim>\<open>userChoice\<close>,
  \<^verbatim>\<open>final\<close>), a list of documents (\<^verbatim>\<open>candidates\<close>, \<^verbatim>\<open>filteredFlights\<close>) or one
  document (\<^verbatim>\<open>selected\<close>). The state is the JavaScript object of the source: a finite
  map from channel names to values, a missing key being \<^verbatim>\<open>undefined\<close>.
\<close>

datatype val = Str string | Docs "Document list" | Doc Document

type_synonym state = "string \<rightharpoonup> val"

text \<open>\<^verbatim>\<open>state.candidates || []\<close> and \<^verbatim>\<open>state.userChoice || ""\<close>: a missing channel
  reads as the default. A channel only ever holds values of its declared type
  (\<^verbatim>\<open>Annotation<Document[]>()\<close>, \<^verbatim>\<open>Annotation<string>()\<close>); any other value reads as
  the default too.\<close>

definition get_docs :: "state \<Rightarrow> string \<Rightarrow> Document list" where
  "get_docs st k = (case st k of Some (Docs ds) \<Rightarrow> ds | _ \<Rightarrow> [])"

definition get_str :: "state \<Rightarrow> string \<Rightarrow> string" where
  "get_str st k = (case st k of Some (Str s) \<Rightarrow> s | _ \<Rightarrow> [])"

text \<open>JavaScript truthiness of a channel, as \<^verbatim>\<open>if (state.final)\<close> tests it: a missing
  channel and the empty string are falsy, arrays and objects are truthy.\<close>

definition truthy :: "val option \<Rightarrow> bool" where
  "truthy v = (case v of None \<Rightarrow> False | Some (Str s) \<Rightarrow> s \<noteq> [] | Some _ \<Rightarrow> True)"

section \<open>Strings and numbers of the JavaScript library\<close>

text \<open>White space as \<^verbatim>\<open>trim\<close> and \<^verbatim>\<open>parseInt\<close> skip it, on one-byte characters:
  tab, line feed, vertical tab, form feed, carriage return, space, no-break space.\<close>

definition is_space :: "char \<Rightarrow> bool" where
  "is_space c = (c \<in> set [CHR 0x09, CHR 0x0A, CHR 0x0B, CHR 0x0C, CHR 0x0D, CHR 0x20, CHR 0xA0])"

definition is_digit :: "char \<Rightarrow> bool" where
  "is_digit c = (48 \<le> (of_char c :: nat) \<and> (of_char c :: nat) \<le> 57)"

definition digit_val :: "char \<Rightarrow> nat" where
  "digit_val c = of_char c - 48"

definition trim :: "string \<Rightarrow> string" where
  "trim s = rev (dropWhile is_space (rev (dropWhile is_space s)))"

fun digits_value :: "nat \<Rightarrow> string \<Rightarrow> nat" where
  "digits_value acc [] = acc"
| "digits_value acc (c # cs) = digits_value (10 * acc + digit_val c) cs"

text \<open>
  \<^verbatim>\<open>Number.parseInt(s, 10)\<close>: skip leading white space, read an optional sign, then the
  longest run of decimal digits; no digit gives \<^verbatim>\<open>NaN\<close>, which is \<open>None\<close>. The source
  only compares the result with array lengths, for which the rounding of a double
  beyond \<open>2^53\<close> makes no difference, so the value is an unbounded integer.
\<close>

definition parseInt10 :: "string \<Rightarrow> int option" where
  "parseInt10 s =
     (let t = dropWhile is_space s;
          neg = (t \<noteq> [] \<and> hd t = CHR ''-'');
          u = (if t \<noteq> [] \<and> (hd t = CHR ''-'' \<or> hd t = CHR ''+'') then tl t else t);
          ds = takeWhile is_digit u
      in if ds = [] then None
         else Some ((if neg then - 1 else 1) * int (digits_value 0 ds)))"

text \<open>\<^verbatim>\<open>parseInt(s)\<close> without a radix, as \<^verbatim>\<open>main.js\<close> calls it: a \<^verbatim>\<open>0x\<close> prefix
  selects base sixteen.\<close>

definition is_hex :: "char \<Rightarrow> bool" where
  "is_hex c = (is_digit c \<or> (65 \<le> (of_char c :: nat) \<and> (of_char c :: nat) \<le> 70)
                \<or> (97 \<le> (of_char c :: nat) \<and> (of_char c :: nat) \<le> 102))"

definition hex_val :: "char \<Rightarrow> nat" where
  "hex_val c = (if is_digit c then of_char c - 48
                else if (of_char c :: nat) \<le> 70 then of_char c - 55 else of_char c - 87)"

fun hex_value :: "nat \<Rightarrow> string \<Rightarrow> nat" where
  "hex_value acc [] = acc"
| "hex_value acc (c # cs) = hex_value (16 * acc + hex_val c) cs"

definition parseInt :: "string \<Rightarrow> int option" where
  "parseInt s =
     (let t = dropWhile is_space s;
          neg = (t \<noteq> [] \<and> hd t = CHR ''-'');
          u = (if t \<noteq> [] \<and> (hd t = CHR ''-'' \<or> hd t = CHR ''+'') then tl t else t);
          sgn = (if neg then - 1 else 1)
      in if take 2 u = ''0x'' \<or> take 2 u = ''0X''
         then (let hs = takeWhile is_hex (drop 2 u)
               in if hs = [] then None else Some (sgn * int (hex_value 0 hs)))
         else (let ds = takeWhile is_digit u
               in if ds = [] then None else Some (sgn * int (digits_value 0 ds))))"

text \<open>\<^verbatim>\<open>s.split(",")\<close>: the pieces between the commas; the empty string gives one
  empty piece.\<close>

fun split_on :: "char \<Rightarrow> string \<Rightarrow> string list" where
  "split_on c [] = [[]]"
| "split_on c (x # xs) =
     (if x = c then [] # split_on c xs
      else (case split_on c xs of [] \<Rightarrow> [[x]] | y # ys \<Rightarrow> (x # y) # ys))"

text \<open>The number a template literal prints for a non-negative integer, in full decimal
  digits (JavaScript turns to the exponent form from \<open>10^21\<close> on, far above any price).\<close>

fun show_nat :: "nat \<Rightarrow> string" where
  "show_nat n = (if n < 10 then [char_of (48 + n)]
                 else show_nat (n div 10) @ [char_of (48 + n mod 10)])"

declare show_nat.simps [simp del]

definition show_opt :: "string option \<Rightarrow> string" where
  "show_opt v = (case v of None \<Rightarrow> ''undefined'' | Some s \<Rightarrow> s)"

definition show_num :: "nat option \<Rightarrow> string" where
  "show_num v = (case v of None \<Rightarrow> ''undefined'' | Some n \<Rightarrow> show_nat n)"

text \<open>\<^verbatim>\<open>toUpperCase\<close> on the letters a to z; other characters stay as they are.\<close>

definition toUpperCase :: "string \<Rightarrow> string" where
  "toUpperCase s =
     map (\<lambda>c. if 97 \<le> (of_char c :: nat) \<and> (of_char c :: nat) \<le> 122
              then char_of ((of_char c :: nat) - 32) else c) s"

text \<open>\<^verbatim>\<open>formatFlightDetails\<close> of the linear workflow's TypeScript port. \<^verbatim>\<open>main.js\<close>
  writes the template inline: with the same text in \<^verbatim>\<open>disambiguateAndAnswer\<close>, and
  with six spaces instead of four before the continuation lines in
  \<^verbatim>\<open>evaluateResults\<close>. The airport code of the origin is
  \<^verbatim>\<open>metadata.from_city?.slice(0, 3).toUpperCase() || "N/A"\<close>: a missing or empty city
  gives \<^verbatim>\<open>N/A\<close>.\<close>

definition formatFlightDetails :: "DocumentMetadata \<Rightarrow> string" where
  "formatFlightDetails m =
     ''Selected flight: '' @ show_opt (title m) @ '' - '' @ show_opt (airline m) @
     ''\<newline>    From: '' @ show_opt (from_city m) @ '' ('' @
       (case from_city m of
          None \<Rightarrow> ''N/A''
        | Some city \<Rightarrow> (if toUpperCase (take 3 city) = [] then ''N/A''
                        else toUpperCase (take 3 city))) @ '')'' @
     ''\<newline>    To: '' @ show_opt (to_city m) @ '' ('' @ show_opt (airport_code m) @ '')'' @
     ''\<newline>    Airport: '' @ show_opt (airport_name m) @
     ''\<newline>    Price: $'' @ show_num (price m) @
     ''\<newline>    Duration: '' @ show_opt (time_approx m) @
     ''\<newline>    Date: '' @ show_opt (date m)"

section \<open>Nodes, interrupts and collaborators\<close>

text \<open>
  What a node does when the engine runs it: it returns a partial update of the state,
  it pauses at \<^verbatim>\<open>interrupt(payload)\<close>, or it throws. The value a pause waits for is the
  argument of the rest of the node. Console output is kept as one event for each
  \<^verbatim>\<open>console.log\<close>, carrying the values the message interpolates.
\<close>

datatype payload = Question string

datatype console =
    Retrieved nat
  | FoundUnique
  | AvailableFlights "Document list"
  | SelectedFlightNo string
  | FilteredTo nat
  | NoFlightFound
  | FinalResult Document
  | FoundDifferent nat
  | FlightsFound "Document list"

datatype js_error = TypeError

datatype node_result =
    Returns "console list" state
  | Interrupts payload "val \<Rightarrow> node_result"
  | Throws js_error

definition interrupt :: "payload \<Rightarrow> (val \<Rightarrow> node_result) \<Rightarrow> node_result" where
  "interrupt p k = Interrupts p k"

text \<open>
  The collaborators are parameters. \<^verbatim>\<open>vectorStore.similaritySearch(query, k)\<close> is given
  the value of the \<^verbatim>\<open>input\<close> channel and the limit. The prompt sent to
  \<^verbatim>\<open>llm.invoke\<close> is built from the user's text and the listed flights only, so the
  reply is a function of these two.
\<close>

record collaborators =
  similaritySearch :: "val option \<Rightarrow> nat \<Rightarrow> Document list"
  llm_invoke :: "string \<Rightarrow> Document list \<Rightarrow> string"

subsection \<open>The linear workflow (\<^verbatim>\<open>main.js\<close> and its TypeScript port)\<close>

text \<open>The loop of \<^verbatim>\<open>retrieveFlights\<close>: push each result, stop once two are held.\<close>

fun retrieve_loop :: "Document list \<Rightarrow> Document list \<Rightarrow> Document list" where
  "retrieve_loop [] candidates = candidates"
| "retrieve_loop (d # ds) candidates =
     (let candidates' = candidates @ [d]
      in if length candidates' \<ge> 2 then candidates' else retrieve_loop ds candidates')"

definition retrieveFlights :: "collaborators \<Rightarrow> state \<Rightarrow> node_result" where
  "retrieveFlights c st =
     (let results = similaritySearch c (st ''input'') 5;
          candidates = retrieve_loop results []
      in Returns [FoundDifferent (length candidates)] [''candidates'' \<mapsto> Docs candidates])"

definition evaluateResults :: "state \<Rightarrow> node_result" where
  "evaluateResults st =
     (let candidates = get_docs st ''candidates''
      in if length candidates = 1
         then Returns [] [''selected'' \<mapsto> Doc (candidates ! 0),
                          ''final'' \<mapsto> Str (formatFlightDetails (metadata (candidates ! 0)))]
         else Returns [] [''candidates'' \<mapsto> Docs candidates])"

text \<open>\<^verbatim>\<open>showResults\<close> returns the state it was given.\<close>

definition showResults :: "state \<Rightarrow> node_result" where
  "showResults st = Returns [FlightsFound (get_docs st ''candidates'')] st"

definition requestUserChoice :: "state \<Rightarrow> node_result" where
  "requestUserChoice st =
     interrupt (Question ''Which flight do you prefer?:'')
       (\<lambda>userChoice. Returns [] [''userChoice'' \<mapsto> userChoice])"

text \<open>
  \<^verbatim>\<open>candidates[i]\<close> is \<^verbatim>\<open>undefined\<close> outside the array, and reading \<^verbatim>\<open>.metadata\<close> of
  \<^verbatim>\<open>undefined\<close> throws a \<^verbatim>\<open>TypeError\<close>.
\<close>

definition nth_opt :: "'a list \<Rightarrow> nat \<Rightarrow> 'a option" where
  "nth_opt xs i = (if i < length xs then Some (xs ! i) else None)"

definition in_range :: "int option \<Rightarrow> nat \<Rightarrow> bool" where
  "in_range i n = (case i of None \<Rightarrow> False | Some j \<Rightarrow> 0 \<le> j \<and> j < int n)"

definition minus_one :: "int option \<Rightarrow> int option" where
  "minus_one i = map_option (\<lambda>j. j - 1) i"

definition answer_with :: "Document option \<Rightarrow> node_result" where
  "answer_with selectedFlight =
     (case selectedFlight of
        None \<Rightarrow> Throws TypeError
      | Some f \<Rightarrow> Returns [] [''selected'' \<mapsto> Doc f,
                               ''final'' \<mapsto> Str (formatFlightDetails (metadata f))])"

definition disambiguateAndAnswer :: "collaborators \<Rightarrow> state \<Rightarrow> node_result" where
  "disambiguateAndAnswer c st =
     (let candidates = get_docs st ''candidates'';
          userInput = get_str st ''userChoice'';
          content = llm_invoke c userInput candidates;
          selectedNumber = minus_one (parseInt10 content);
          selectedFlight = (if in_range selectedNumber (length candidates)
                            then nth_opt candidates (nat (the selectedNumber))
                            else nth_opt candidates 0)
      in answer_with selectedFlight)"

text \<open>The same node in \<^verbatim>\<open>main.js\<close>: \<^verbatim>\<open>parseInt(llmResponse.content.trim()) - 1\<close>.\<close>

definition disambiguateAndAnswer_js :: "collaborators \<Rightarrow> state \<Rightarrow> node_result" where
  "disambiguateAndAnswer_js c st =
     (let candidates = get_docs st ''candidates'';
          userInput = get_str st ''userChoice'';
          content = llm_invoke c userInput candidates;
          selectedNumber = minus_one (parseInt (trim content));
          selectedFlight = (if in_range selectedNumber (length candidates)
                            then nth_opt candidates (nat (the selectedNumber))
                            else nth_opt candidates 0)
      in answer_with selectedFlight)"

definition evaluateResults_router :: "state \<Rightarrow> string" where
  "evaluateResults_router st = (if truthy (st ''final'') then ''complete'' else ''multiple'')"

subsection \<open>The circular workflow (\<^verbatim>\<open>main.ts\<close>)\<close>

definition initialize :: "collaborators \<Rightarrow> state \<Rightarrow> node_result" where
  "initialize c st =
     (let results = similaritySearch c (st ''input'') 10;
          filteredFlights = results
      in Returns [Retrieved (length filteredFlights)] [''filteredFlights'' \<mapsto> Docs filteredFlights])"

definition showFlights :: "state \<Rightarrow> node_result" where
  "showFlights st =
     (let flights = get_docs st ''filteredFlights''
      in if length flights = 1
         then Returns [FoundUnique] [''filteredFlights'' \<mapsto> Docs flights]
         else Returns [AvailableFlights flights] [''filteredFlights'' \<mapsto> Docs flights])"

definition question :: string where
  "question = ''Refine your search (e.g., 'I want flights to Japan', 'Show me the cheapest', or select by number):''"

definition requestChoice :: "state \<Rightarrow> node_result" where
  "requestChoice st =
     interrupt (Question question)
       (\<lambda>userChoice. Returns [] [''userChoice'' \<mapsto> userChoice])"

text \<open>\<^verbatim>\<open>/^\d+$/\<close>: one or more decimal digits and nothing else.\<close>

definition numberRegex :: "string \<Rightarrow> bool" where
  "numberRegex s = (s \<noteq> [] \<and> list_all is_digit s)"

text \<open>The flights the reply of the language model selects: the in-range numbers of
  the comma-separated reply, in the order and as often as the reply names them.\<close>

definition selectedNumbers :: "string \<Rightarrow> nat \<Rightarrow> int option list" where
  "selectedNumbers content n =
     filter (\<lambda>i. in_range i n)
       (map (\<lambda>piece. minus_one (parseInt10 (trim piece))) (split_on CHR '','' (trim content)))"

definition disambiguateSelection :: "collaborators \<Rightarrow> state \<Rightarrow> node_result" where
  "disambiguateSelection c st =
     (let flights = get_docs st ''filteredFlights'';
          userInput = get_str st ''userChoice'';
          selectedIndex = minus_one (parseInt10 userInput)
      in if numberRegex userInput \<and> in_range selectedIndex (length flights)
         then Returns [SelectedFlightNo userInput]
                [''filteredFlights'' \<mapsto> Docs [flights ! nat (the selectedIndex)]]
         else (let content = llm_invoke c userInput flights;
                   filteredFlights = map (\<lambda>i. flights ! nat (the i))
                                       (selectedNumbers content (length flights))
               in Returns [FilteredTo (length filteredFlights)]
                    [''filteredFlights'' \<mapsto> Docs filteredFlights]))"

definition showFinalFlight :: "state \<Rightarrow> node_result" where
  "showFinalFlight st =
     (let flights = get_docs st ''filteredFlights''
      in case nth_opt flights 0 of
           None \<Rightarrow> Returns [NoFlightFound] Map.empty
         | Some flight \<Rightarrow> Returns [FinalResult flight] Map.empty)"

definition showFlights_router :: "state \<Rightarrow> string" where
  "showFlights_router st =
     (let flights = get_docs st ''filteredFlights''
      in if length flights = 1 then ''final'' else ''continue'')"

section \<open>The graphs\<close>

text \<open>
  A graph as \<^verbatim>\<open>StateGraph\<close> is given it: the nodes added by \<^verbatim>\<open>addNode\<close>, the edges
  added by \<^verbatim>\<open>addEdge\<close>, and for \<^verbatim>\<open>addConditionalEdges\<close> the source node, the routing
  function and the mapping from its labels to destinations.
\<close>

record graph =
  nodes :: "(string \<times> (state \<Rightarrow> node_result)) list"
  edges :: "(string \<times> string) list"
  conditional_edges :: "(string \<times> (state \<Rightarrow> string) \<times> (string \<times> string) list) list"

definition workflow_linear :: "collaborators \<Rightarrow> graph" where
  "workflow_linear c =
     \<lparr> nodes = [(''retrieveFlights'', retrieveFlights c),
                (''evaluateResults'', evaluateResults),
                (''showResults'', showResults),
                (''requestUserChoice'', requestUserChoice),
                (''disambiguateAndAnswer'', disambiguateAndAnswer c)],
       edges = [(''__start__'', ''retrieveFlights''),
                (''retrieveFlights'', ''evaluateResults''),
                (''showResults'', ''requestUserChoice''),
                (''requestUserChoice'', ''disambiguateAndAnswer''),
                (''disambiguateAndAnswer'', ''__end__'')],
       conditional_edges =
               [(''evaluateResults'', evaluateResults_router,
                 [(''complete'', ''__end__''), (''multiple'', ''showResults'')])] \<rparr>"

definition workflow_circular :: "collaborators \<Rightarrow> graph" where
  "workflow_circular c =
     \<lparr> nodes = [(''initialize'', initialize c),
                (''showFlights'', showFlights),
                (''requestChoice'', requestChoice),
                (''disambiguateSelection'', disambiguateSelection c),
                (''showFinalFlight'', showFinalFlight)],
       edges = [(''__start__'', ''initialize''),
                (''initialize'', ''showFlights''),
                (''requestChoice'', ''disambiguateSelection''),
                (''disambiguateSelection'', ''showFlights''),
                (''showFinalFlight'', ''__end__'')],
       conditional_edges =
               [(''showFlights'', showFlights_router,
                 [(''final'', ''showFinalFlight''), (''continue'', ''requestChoice'')])] \<rparr>"

section \<open>Validation of a graph\<close>

text \<open>
  Modelled from the spec: the check that \<^verbatim>\<open>build\<close> makes once (section 4.1), which the
  sources leave to the library. A graph is refused when a node id is duplicated, an
  edge names an unknown node, the label mapping of a conditional edge does not cover
  every label its routing function can return, or the start or end marker is absent.
\<close>

definition node_ids :: "graph \<Rightarrow> string set" where
  "node_ids g = set (map fst (nodes g))"

definition validate :: "graph \<Rightarrow> bool" where
  "validate g \<longleftrightarrow>
     distinct (map fst (nodes g)) \<and>
     (\<forall>(a, b) \<in> set (edges g).
        (a = ''__start__'' \<or> a \<in> node_ids g) \<and> (b = ''__end__'' \<or> b \<in> node_ids g)) \<and>
     (\<forall>(a, router, mapping) \<in> set (conditional_edges g).
        a \<in> node_ids g \<and>
        (\<forall>b \<in> snd ` set mapping. b = ''__end__'' \<or> b \<in> node_ids g) \<and>
        (\<forall>st. router st \<in> fst ` set mapping)) \<and>
     ''__start__'' \<in> fst ` set (edges g) \<and>
     ''__end__'' \<in> snd ` set (edges g) \<union> (\<Union>(a, router, mapping) \<in> set (conditional_edges g). snd ` set mapping)"

section \<open>The execution engine\<close>

text \<open>
  The engine that walks a graph (\<^verbatim>\<open>StateGraph.compile\<close>, \<^verbatim>\<open>invoke\<close>, \<^verbatim>\<open>Command\<close>,
  \<^verbatim>\<open>MemorySaver\<close>) is imported from a library and is not part of the sources. Every
  definition of this section is written from sections 3, 4.2 to 4.5, 6 and 7 of the
  specification.
\<close>

text \<open>
  Modelled from the spec: the merge of a partial update (section 4.3), which the library
  does. Every channel of both workflows is declared with the default reducer, so a
  merge overwrites the channels of the partial update and leaves the others.
\<close>

definition merge :: "state \<Rightarrow> state \<Rightarrow> state" where
  "merge oldState partialUpdate =
     (\<lambda>k. case partialUpdate k of None \<Rightarrow> oldState k | Some v \<Rightarrow> Some v)"

text \<open>
  Modelled from the spec: the move of the cursor (section 4.2, step 3), which the library
  does. The successor of a node is taken in the state its update was merged into: by
  the routing function and its mapping when the node has conditional edges, along its
  edge otherwise. A node with conditional edges is a node like any other in the
  sources (\<open>evaluateResults\<close> writes the \<^verbatim>\<open>final\<close> channel its routing function reads),
  so its update is merged before its routing function is asked.
\<close>

definition next_node :: "graph \<Rightarrow> string \<Rightarrow> state \<Rightarrow> string option" where
  "next_node g cur st =
     (case map_of (conditional_edges g) cur of
        Some (router, mapping) \<Rightarrow> map_of mapping (router st)
      | None \<Rightarrow> map_of (edges g) cur)"

text \<open>
  Modelled from the spec: the checkpoint record of section 6, the errors of section 7
  and the outcome of a call (section 4.2), none of which the sources declare.
  \<open>StepLimit\<close> is the superstep bound of section 4.2: the engine walks at most as many
  nodes as it is given steps.
\<close>

record checkpoint =
  cp_state :: state
  cp_cursor :: string
  cp_interrupt :: "payload option"

datatype engine_error =
    GraphDefinitionError
  | NoPendingInterruptError
  | ResumeRequiredError
  | NodeExecutionError string js_error

datatype outcome =
    Completed state
  | Suspended payload
  | Failed engine_error
  | StepLimit

datatype event = Entered string | Console console

record run =
  outcome :: outcome
  saved :: checkpoint
  trace :: "event list"

text \<open>
  Modelled from the spec: the superstep loop of section 4.2, which the library runs.
  \<open>drive\<close> takes what the node at the cursor did; \<open>enter\<close> runs the node at the cursor.
  A checkpoint is the state and cursor after the last completed step: a node that
  throws or pauses leaves the state it was entered with, the cursor on itself, and
  the payload of the pause if any.
\<close>

fun drive :: "nat \<Rightarrow> graph \<Rightarrow> state \<Rightarrow> string \<Rightarrow> node_result \<Rightarrow> event list \<Rightarrow> run"
and enter :: "nat \<Rightarrow> graph \<Rightarrow> state \<Rightarrow> string \<Rightarrow> event list \<Rightarrow> run" where
  "drive fuel g st cur (Throws e) log =
     \<lparr> outcome = Failed (NodeExecutionError cur e),
       saved = \<lparr> cp_state = st, cp_cursor = cur, cp_interrupt = None \<rparr>,
       trace = log \<rparr>"
| "drive fuel g st cur (Interrupts p k) log =
     \<lparr> outcome = Suspended p,
       saved = \<lparr> cp_state = st, cp_cursor = cur, cp_interrupt = Some p \<rparr>,
       trace = log \<rparr>"
| "drive fuel g st cur (Returns out partialUpdate) log =
     (let st' = merge st partialUpdate;
          log' = log @ map Console out
      in case next_node g cur st' of
           None \<Rightarrow> \<lparr> outcome = Failed GraphDefinitionError,
                     saved = \<lparr> cp_state = st, cp_cursor = cur, cp_interrupt = None \<rparr>,
                     trace = log' \<rparr>
         | Some nxt \<Rightarrow> enter fuel g st' nxt log')"
| "enter fuel g st cur log =
     (if cur = ''__end__''
      then \<lparr> outcome = Completed st,
             saved = \<lparr> cp_state = st, cp_cursor = cur, cp_interrupt = None \<rparr>,
             trace = log \<rparr>
      else (case fuel of
              0 \<Rightarrow> \<lparr> outcome = StepLimit,
                     saved = \<lparr> cp_state = st, cp_cursor = cur, cp_interrupt = None \<rparr>,
                     trace = log \<rparr>
            | Suc fuel' \<Rightarrow>
                (case map_of (nodes g) cur of
                   None \<Rightarrow> \<lparr> outcome = Failed GraphDefinitionError,
                             saved = \<lparr> cp_state = st, cp_cursor = cur, cp_interrupt = None \<rparr>,
                             trace = log \<rparr>
                 | Some handler \<Rightarrow> drive fuel' g st cur (handler st) (log @ [Entered cur]))))"

text \<open>Modelled from the spec: the checkpoint store of section 4.4 (\<^verbatim>\<open>MemorySaver\<close> in
  the sources), a map from a session id to its one checkpoint. A call that ran saves
  its checkpoint; a call that is refused leaves the store as it is.\<close>

type_synonym store = "string \<rightharpoonup> checkpoint"

record reply =
  result :: outcome
  printed :: "event list"

definition commit :: "store \<Rightarrow> string \<Rightarrow> run \<Rightarrow> reply \<times> store" where
  "commit cps sid r = (\<lparr> result = outcome r, printed = trace r \<rparr>, cps(sid \<mapsto> saved r))"

definition reject :: "store \<Rightarrow> engine_error \<Rightarrow> reply \<times> store" where
  "reject cps e = (\<lparr> result = Failed e, printed = [] \<rparr>, cps)"

text \<open>
  Modelled from the spec: \<open>invoke\<close> of sections 4.2, 4.5 and 6, the library's
  \<^verbatim>\<open>app.invoke({ input: question }, config)\<close>: a session without a checkpoint starts at
  the successor of \<^verbatim>\<open>__start__\<close> with the input as its state; a session with a pending
  interrupt is refused; any other session continues at its cursor.
\<close>

definition invoke :: "nat \<Rightarrow> graph \<Rightarrow> store \<Rightarrow> string \<Rightarrow> state \<Rightarrow> reply \<times> store" where
  "invoke fuel g cps sid initialInput =
     (case cps sid of
        None \<Rightarrow>
          (case map_of (edges g) ''__start__'' of
             None \<Rightarrow> reject cps GraphDefinitionError
           | Some first \<Rightarrow> commit cps sid (enter fuel g initialInput first []))
      | Some cp \<Rightarrow>
          (case cp_interrupt cp of
             Some p \<Rightarrow> reject cps ResumeRequiredError
           | None \<Rightarrow> commit cps sid (enter fuel g (cp_state cp) (cp_cursor cp) [])))"

text \<open>
  Modelled from the spec: \<open>resume\<close> of sections 4.5 and 6, the library's
  \<^verbatim>\<open>app.invoke(new Command({ resume: userChoice }), config)\<close>: the value is delivered to
  the pause of the node at the cursor, and the rest of that node runs on the state of
  the checkpoint.
\<close>

record command =
  sessionId :: string
  resume_value :: val

definition resume :: "nat \<Rightarrow> graph \<Rightarrow> store \<Rightarrow> command \<Rightarrow> reply \<times> store" where
  "resume fuel g cps cmd =
     (case cps (sessionId cmd) of
        None \<Rightarrow> reject cps NoPendingInterruptError
      | Some cp \<Rightarrow>
          (case cp_interrupt cp of
             None \<Rightarrow> reject cps NoPendingInterruptError
           | Some p \<Rightarrow>
               (case map_of (nodes g) (cp_cursor cp) of
                  None \<Rightarrow> reject cps GraphDefinitionError
                | Some handler \<Rightarrow>
                    (case handler (cp_state cp) of
                       Interrupts p' k \<Rightarrow>
                         commit cps (sessionId cmd)
                           (drive fuel g (cp_state cp) (cp_cursor cp) (k (resume_value cmd)) [])
                     | r \<Rightarrow>
                         commit cps (sessionId cmd)
                           (drive fuel g (cp_state cp) (cp_cursor cp) r [])))))"

section \<open>The drivers\<close>

text \<open>
  \<^verbatim>\<open>main\<close> of \<^verbatim>\<open>main.ts\<close>: one \<^verbatim>\<open>invoke\<close>, then one resume for each answer of the
  operator while the reply carries an interrupt. \<^verbatim>\<open>getUserInput\<close> trims the answer. The
  replies of all calls are kept in order; when the answers run out the program waits
  at the prompt, and the last reply is the pending one.
\<close>

fun handle_interruptions ::
  "nat \<Rightarrow> graph \<Rightarrow> string \<Rightarrow> string list \<Rightarrow> reply \<times> store \<Rightarrow> reply list \<times> store" where
  "handle_interruptions fuel g sid [] (currentState, cps) = ([currentState], cps)"
| "handle_interruptions fuel g sid (answer # answers) (currentState, cps) =
     (case result currentState of
        Suspended p \<Rightarrow>
          (let userChoice = trim answer;
               (rs, cps') = handle_interruptions fuel g sid answers
                              (resume fuel g cps \<lparr> sessionId = sid, resume_value = Str userChoice \<rparr>)
           in (currentState # rs, cps'))
      | _ \<Rightarrow> ([currentState], cps))"

definition main_circular :: "nat \<Rightarrow> collaborators \<Rightarrow> string list \<Rightarrow> reply list \<times> store" where
  "main_circular fuel c answers =
     handle_interruptions fuel (workflow_circular c) ''hitl-circular-thread'' answers
       (invoke fuel (workflow_circular c) Map.empty ''hitl-circular-thread''
          [''input'' \<mapsto> Str ''Flights to Asia''])"

text \<open>\<^verbatim>\<open>main\<close> of the linear workflow resumes at most once.\<close>

definition main_linear :: "nat \<Rightarrow> collaborators \<Rightarrow> string list \<Rightarrow> reply list \<times> store" where
  "main_linear fuel c answers =
     handle_interruptions fuel (workflow_linear c) ''hitl-thread'' (take 1 answers)
       (invoke fuel (workflow_linear c) Map.empty ''hitl-thread''
          [''input'' \<mapsto> Str ''Flights to Tokyo''])"

section \<open>The run without pauses\<close>

text \<open>
  The reference of the specification's transparency property, in its words "as if the
  interrupted node had synchronously returned \<open>v\<close> without ever pausing": an execution
  in which a node that asks for a value is given it at once and goes on, the values
  being taken from a list in order. With no value left the run pauses as the engine
  does.
\<close>

fun drive_sync ::
  "nat \<Rightarrow> graph \<Rightarrow> val list \<Rightarrow> state \<Rightarrow> string \<Rightarrow> node_result \<Rightarrow> event list \<Rightarrow> run"
and enter_sync ::
  "nat \<Rightarrow> graph \<Rightarrow> val list \<Rightarrow> state \<Rightarrow> string \<Rightarrow> event list \<Rightarrow> run" where
  "drive_sync fuel g vs st cur (Throws e) log =
     \<lparr> outcome = Failed (NodeExecutionError cur e),
       saved = \<lparr> cp_state = st, cp_cursor = cur, cp_interrupt = None \<rparr>,
       trace = log \<rparr>"
| "drive_sync fuel g [] st cur (Interrupts p k) log =
     \<lparr> outcome = Suspended p,
       saved = \<lparr> cp_state = st, cp_cursor = cur, cp_interrupt = Some p \<rparr>,
       trace = log \<rparr>"
| "drive_sync fuel g (v # vs) st cur (Interrupts p k) log =
     drive_sync fuel g vs st cur (k v) log"
| "drive_sync fuel g vs st cur (Returns out partialUpdate) log =
     (let st' = merge st partialUpdate;
          log' = log @ map Console out
      in case next_node g cur st' of
           None \<Rightarrow> \<lparr> outcome = Failed GraphDefinitionError,
                     saved = \<lparr> cp_state = st, cp_cursor = cur, cp_interrupt = None \<rparr>,
                     trace = log' \<rparr>
         | Some nxt \<Rightarrow> enter_sync fuel g vs st' nxt log')"
| "enter_sync fuel g vs st cur log =
     (if cur = ''__end__''
      then \<lparr> outcome = Completed st,
             saved = \<lparr> cp_state = st, cp_cursor = cur, cp_interrupt = None \<rparr>,
             trace = log \<rparr>
      else (case fuel of
              0 \<Rightarrow> \<lparr> outcome = StepLimit,
                     saved = \<lparr> cp_state = st, cp_cursor = cur, cp_interrupt = None \<rparr>,
                     trace = log \<rparr>
            | Suc fuel' \<Rightarrow>
                (case map_of (nodes g) cur of
                   None \<Rightarrow> \<lparr> outcome = Failed GraphDefinitionError,
                             saved = \<lparr> cp_state = st, cp_cursor = cur, cp_interrupt = None \<rparr>,
                             trace = log \<rparr>
                 | Some handler \<Rightarrow>
                     drive_sync fuel' g vs st cur (handler st) (log @ [Entered cur]))))"

section \<open>Reading a node's result and a session's checkpoint\<close>

text \<open>The \<^verbatim>\<open>filteredFlights\<close> a node returned and the messages it printed.\<close>

definition updated_flights :: "node_result \<Rightarrow> Document list" where
  "updated_flights r = (case r of Returns out upd \<Rightarrow> get_docs upd ''filteredFlights'' | _ \<Rightarrow> [])"

definition printed_by :: "node_result \<Rightarrow> console list" where
  "printed_by r = (case r of Returns out upd \<Rightarrow> out | _ \<Rightarrow> [])"

text \<open>A checkpoint of the circular workflow is \<open>routed\<close> when its cursor is on
  \<open>showFinalFlight\<close> only with exactly one flight left, and it holds a pending interrupt
  only with its cursor on \<open>requestChoice\<close>; a session is \<open>routed\<close> when it has no
  checkpoint or a routed one.\<close>

definition routed :: "checkpoint \<Rightarrow> bool" where
  "routed cp \<longleftrightarrow>
     (cp_cursor cp = ''showFinalFlight'' \<longrightarrow>
        length (get_docs (cp_state cp) ''filteredFlights'') = 1) \<and>
     (cp_interrupt cp \<noteq> None \<longrightarrow> cp_cursor cp = ''requestChoice'')"

definition routed_session :: "store \<Rightarrow> string \<Rightarrow> bool" where
  "routed_session cps sid = (case cps sid of None \<Rightarrow> True | Some cp \<Rightarrow> routed cp)"

section \<open>The recorded run\<close>

text \<open>The ten flights, the three answers and the three selections of the run recorded
  in \<^verbatim>\<open>workflow-result.md\<close>, in ASCII.\<close>

definition flight ::
  "string \<Rightarrow> string \<Rightarrow> string \<Rightarrow> string \<Rightarrow> string \<Rightarrow> nat \<Rightarrow> string \<Rightarrow> string \<Rightarrow> Document" where
  "flight code air city ctry port p dur day =
     \<lparr> pageContent = [],
       metadata = \<lparr> title = Some (''MDE -> '' @ code @ '' ('' @ air @ '')''), airline = Some air,
                    from_city = Some ''Medellin'', to_city = Some city, country = Some ctry,
                    airport_code = Some code, airport_name = Some port, price = Some p,
                    time_approx = Some dur, date = Some day \<rparr> \<rparr>"

definition recorded_flights :: "Document list" where
  "recorded_flights =
     [flight ''KIX'' ''AndeanSky'' ''Osaka'' ''Japan'' ''Kansai International'' 1350 ''24h 15m'' ''2025-11-08'',
      flight ''SIN'' ''CoffeeAir'' ''Singapore'' ''Singapore'' ''Changi Airport'' 1520 ''27h 45m'' ''2025-11-25'',
      flight ''PVG'' ''AndeanSky'' ''Shanghai'' ''China'' ''Pudong International'' 1450 ''25h 50m'' ''2025-11-28'',
      flight ''UKY'' ''CoffeeAir'' ''Kyoto'' ''Japan'' ''Kyoto Airport'' 1320 ''23h 45m'' ''2025-11-12'',
      flight ''BKK'' ''CondorJet'' ''Bangkok'' ''Thailand'' ''Suvarnabhumi'' 1480 ''26h 30m'' ''2025-11-22'',
      flight ''CTS'' ''CondorJet'' ''Sapporo'' ''Japan'' ''New Chitose Airport'' 1450 ''26h 10m'' ''2025-11-20'',
      flight ''NRT'' ''CaribeWings'' ''Tokyo'' ''Japan'' ''Narita'' 1215 ''23h 30m'' ''2025-11-05'',
      flight ''ICN'' ''CoffeeAir'' ''Seoul'' ''South Korea'' ''Incheon International'' 1380 ''24h 40m'' ''2025-11-18'',
      flight ''BOM'' ''CoffeeAir'' ''Mumbai'' ''India'' ''Chhatrapati Shivaji Maharaj International'' 1550 ''28h 20m'' ''2025-12-05'',
      flight ''HND'' ''CondorJet'' ''Tokyo'' ''Japan'' ''Haneda'' 1290 ''22h 10m'' ''2025-11-05'']"

definition recorded :: collaborators where
  "recorded =
     \<lparr> similaritySearch = (\<lambda>query k. take k recorded_flights),
       llm_invoke = (\<lambda>userInput flights.
          if userInput = ''I am looking for flights to Japan'' then ''1, 4, 6, 7, 10''
          else if userInput = ''Show me only the Tokyo options'' then ''4,5''
          else if userInput = ''I will take the Haneda flight'' then ''2''
          else ''none'') \<rparr>"

definition recorded_answers :: "string list" where
  "recorded_answers =
     [''I am looking for flights to Japan'', ''Show me only the Tokyo options '',
      ''I will take the Haneda flight'']"

text \<open>A vector store that holds one flight, and one that holds none (the index after
  \<^verbatim>\<open>ingestData\<close> found no data set).\<close>

definition one_flight :: collaborators where
  "one_flight = recorded\<lparr> similaritySearch := \<lambda>query k. take k (take 1 recorded_flights) \<rparr>"

definition no_flights :: collaborators where
  "no_flights = recorded\<lparr> similaritySearch := \<lambda>query k. [] \<rparr>"

text \<open>The checkpoint of the first pause of the recorded run.\<close>

definition first_pause :: checkpoint where
  "first_pause =
     \<lparr> cp_state = [''input'' \<mapsto> Str ''Flights to Asia'',
                    ''filteredFlights'' \<mapsto> Docs recorded_flights],
       cp_cursor = ''requestChoice'', cp_interrupt = Some (Question question) \<rparr>"

text \<open>A call has completed when its outcome is \<open>Completed\<close>.\<close>

definition completed :: "outcome \<Rightarrow> bool" where
  "completed out = (case out of Completed st \<Rightarrow> True | _ \<Rightarrow> False)"

text \<open>The two failures of section 4.5 that answer a misuse of the protocol, and the
  agreement between a reply and the store returned with it: a reply that carries an
  interrupt comes with a checkpoint that holds it.\<close>

definition misuse :: "outcome \<Rightarrow> bool" where
  "misuse out \<longleftrightarrow> out = Failed NoPendingInterruptError \<or> out = Failed ResumeRequiredError"

definition pending_as_replied :: "reply \<times> store \<Rightarrow> string \<Rightarrow> bool" where
  "pending_as_replied rc sid \<longleftrightarrow>
     (\<forall>p. result (fst rc) = Suspended p \<longrightarrow>
          (\<exists>cp. snd rc sid = Some cp \<and> cp_interrupt cp = Some p))"

text \<open>The first answer of the recorded run as a command, the store after the first
  \<open>invoke\<close> of the recorded run, and the reply and store after that command.\<close>

definition first_answer :: command where
  "first_answer =
     \<lparr> sessionId = ''hitl-circular-thread'',
       resume_value = Str ''I am looking for flights to Japan'' \<rparr>"

definition paused_once :: store where
  "paused_once =
     snd (invoke 25 (workflow_circular recorded) Map.empty ''hitl-circular-thread''
            [''input'' \<mapsto> Str ''Flights to Asia''])"

definition paused_twice :: "reply \<times> store" where
  "paused_twice = resume 25 (workflow_circular recorded) paused_once first_answer"

text \<open>The payload of a reply that carries an interrupt, and the number of flights a
  store holds for the session of the circular workflow.\<close>

definition pending_payload :: "reply \<Rightarrow> payload option" where
  "pending_payload r = (case result r of Suspended p \<Rightarrow> Some p | _ \<Rightarrow> None)"

definition flights_left :: "store \<Rightarrow> nat option" where
  "flights_left cps =
     map_option (\<lambda>cp. length (get_docs (cp_state cp) ''filteredFlights''))
       (cps ''hitl-circular-thread'')"

section \<open>Merging partial updates\<close>

lemma merge_empty [simp]: "merge st Map.empty = st"
  by (simp add: merge_def)

lemma merge_upd [simp]: "merge st (m(k \<mapsto> v)) = (merge st m)(k \<mapsto> v)"
  by (auto simp: merge_def fun_eq_iff)

lemma merge_frame: "partialUpdate k = None \<Longrightarrow> merge oldState partialUpdate k = oldState k"
  by (simp add: merge_def)

lemma merge_self [simp]: "merge st st = st"
  by (auto simp: merge_def fun_eq_iff split: option.splits)

section \<open>Stepping through a graph\<close>

declare enter.simps [simp del]

lemma enter_end [simp]:
  "enter fuel g st ''__end__'' log =
     \<lparr> outcome = Completed st,
       saved = \<lparr> cp_state = st, cp_cursor = ''__end__'', cp_interrupt = None \<rparr>,
       trace = log \<rparr>"
  by (simp add: enter.simps)

lemma enter_Suc:
  "cur \<noteq> ''__end__'' \<Longrightarrow> map_of (nodes g) cur = Some handler \<Longrightarrow>
   enter (Suc fuel) g st cur log = drive fuel g st cur (handler st) (log @ [Entered cur])"
  by (simp add: enter.simps)

lemma enter_0:
  "cur \<noteq> ''__end__'' \<Longrightarrow>
   enter 0 g st cur log =
     \<lparr> outcome = StepLimit,
       saved = \<lparr> cp_state = st, cp_cursor = cur, cp_interrupt = None \<rparr>,
       trace = log \<rparr>"
  by (simp add: enter.simps)

section \<open>The linear workflow\<close>

lemma retrieve_loop_take:
  "length candidates < 2 \<Longrightarrow> retrieve_loop results candidates = take 2 (candidates @ results)"
proof (induction results arbitrary: candidates)
  case Nil
  then show ?case by simp
next
  case (Cons d ds)
  show ?case
  proof (cases "length candidates = 1")
    case True
    then show ?thesis by simp
  next
    case False
    with Cons.prems have "candidates = []" by (cases candidates) auto
    with Cons.IH [of "[d]"] show ?thesis by simp
  qed
qed

text \<open>
  C9. In the linear workflow \<open>retrieveFlights\<close> asks the vector store for five results
  and keeps the first two: whatever list the store returns, the \<^verbatim>\<open>candidates\<close> channel
  it writes holds \<open>min (length results) 2\<close> documents, the first ones of the results.
\<close>

theorem retrieveFlights_at_most_two:
  "\<exists>candidates.
     retrieveFlights c st =
       Returns [FoundDifferent (length candidates)] [''candidates'' \<mapsto> Docs candidates] \<and>
     candidates = take 2 (similaritySearch c (st ''input'') 5) \<and>
     length candidates = min (length (similaritySearch c (st ''input'') 5)) 2"
  by (simp add: retrieveFlights_def retrieve_loop_take Let_def min_def)

lemma linear_nodes:
  "map_of (nodes (workflow_linear c)) ''retrieveFlights'' = Some (retrieveFlights c)"
  "map_of (nodes (workflow_linear c)) ''evaluateResults'' = Some evaluateResults"
  "map_of (nodes (workflow_linear c)) ''showResults'' = Some showResults"
  "map_of (nodes (workflow_linear c)) ''requestUserChoice'' = Some requestUserChoice"
  "map_of (nodes (workflow_linear c)) ''disambiguateAndAnswer'' = Some (disambiguateAndAnswer c)"
  by (simp_all add: workflow_linear_def)

lemma linear_next:
  "next_node (workflow_linear c) ''retrieveFlights'' st = Some ''evaluateResults''"
  "next_node (workflow_linear c) ''evaluateResults'' st =
     Some (if truthy (st ''final'') then ''__end__'' else ''showResults'')"
  "next_node (workflow_linear c) ''showResults'' st = Some ''requestUserChoice''"
  "next_node (workflow_linear c) ''requestUserChoice'' st = Some ''disambiguateAndAnswer''"
  "next_node (workflow_linear c) ''disambiguateAndAnswer'' st = Some ''__end__''"
  by (simp_all add: workflow_linear_def next_node_def evaluateResults_router_def)

lemma linear_start: "map_of (edges (workflow_linear c)) ''__start__'' = Some ''retrieveFlights''"
  by (simp add: workflow_linear_def)

lemma formatFlightDetails_nonempty: "formatFlightDetails m \<noteq> []"
  by (simp add: formatFlightDetails_def)

text \<open>
  C4. In the linear workflow, when the retrieval returns exactly one candidate, a first
  \<open>invoke\<close> of a session completes: \<open>evaluateResults\<close> selects the candidate and writes
  the \<^verbatim>\<open>final\<close> channel, the routing function answers \<^verbatim>\<open>complete\<close>, and the run ends
  after the two nodes \<open>retrieveFlights\<close> and \<open>evaluateResults\<close>. No node that pauses is
  entered and the session is left without a pending interrupt.
\<close>

theorem single_candidate_completes:
  assumes one: "similaritySearch c (initialInput ''input'') 5 = [d]"
    and fresh: "cps sid = None"
    and fuel: "2 \<le> fuel"
  shows "invoke fuel (workflow_linear c) cps sid initialInput =
           (\<lparr> result = Completed (initialInput(''candidates'' \<mapsto> Docs [d], ''selected'' \<mapsto> Doc d,
                                   ''final'' \<mapsto> Str (formatFlightDetails (metadata d)))),
              printed = [Entered ''retrieveFlights'', Console (FoundDifferent 1),
                         Entered ''evaluateResults''] \<rparr>,
            cps(sid \<mapsto> \<lparr> cp_state = initialInput(''candidates'' \<mapsto> Docs [d], ''selected'' \<mapsto> Doc d,
                                   ''final'' \<mapsto> Str (formatFlightDetails (metadata d))),
                          cp_cursor = ''__end__'', cp_interrupt = None \<rparr>))"
proof -
  from fuel have n: "fuel = Suc (Suc (fuel - 2))"
    by simp
  have r: "retrieveFlights c initialInput =
             Returns [FoundDifferent 1] [''candidates'' \<mapsto> Docs [d]]"
    by (simp add: retrieveFlights_def one)
  have e: "evaluateResults (initialInput(''candidates'' \<mapsto> Docs [d])) =
             Returns [] [''selected'' \<mapsto> Doc d, ''final'' \<mapsto> Str (formatFlightDetails (metadata d))]"
    by (simp add: evaluateResults_def get_docs_def)
  have t: "truthy (Some (Str (formatFlightDetails (metadata d))))"
    by (simp add: truthy_def formatFlightDetails_nonempty)
  have "enter (Suc (Suc (fuel - 2))) (workflow_linear c) initialInput ''retrieveFlights'' [] =
      \<lparr> outcome = Completed (initialInput(''candidates'' \<mapsto> Docs [d], ''selected'' \<mapsto> Doc d,
                                   ''final'' \<mapsto> Str (formatFlightDetails (metadata d)))),
        saved = \<lparr> cp_state = initialInput(''candidates'' \<mapsto> Docs [d], ''selected'' \<mapsto> Doc d,
                                   ''final'' \<mapsto> Str (formatFlightDetails (metadata d))),
                  cp_cursor = ''__end__'', cp_interrupt = None \<rparr>,
        trace = [Entered ''retrieveFlights'', Console (FoundDifferent 1),
                 Entered ''evaluateResults''] \<rparr>"
    by (simp add: enter_Suc linear_nodes r e linear_next t Let_def)
  then show ?thesis
    by (subst n) (simp add: invoke_def fresh linear_start commit_def)
qed

theorem single_candidate_completes_witness:
  "similaritySearch one_flight ([''input'' \<mapsto> Str ''Flights to Tokyo''] ''input'') 5 =
     [hd recorded_flights] \<and>
   (Map.empty :: store) ''hitl-thread'' = None \<and> (2::nat) \<le> 25 \<and>
   result (fst (invoke 25 (workflow_linear one_flight) Map.empty ''hitl-thread''
                  [''input'' \<mapsto> Str ''Flights to Tokyo''])) =
     Completed [''input'' \<mapsto> Str ''Flights to Tokyo'',
                ''candidates'' \<mapsto> Docs [hd recorded_flights],
                ''selected'' \<mapsto> Doc (hd recorded_flights),
                ''final'' \<mapsto> Str (formatFlightDetails (metadata (hd recorded_flights)))]"
proof -
  have h: "similaritySearch one_flight ([''input'' \<mapsto> Str ''Flights to Tokyo''] ''input'') 5 =
             [hd recorded_flights]"
    by (simp add: one_flight_def recorded_flights_def)
  show ?thesis
    using h single_candidate_completes
            [where c = one_flight and initialInput = "[''input'' \<mapsto> Str ''Flights to Tokyo'']"
               and d = "hd recorded_flights" and cps = Map.empty and sid = "''hitl-thread''"
               and fuel = 25]
    by simp
qed

section \<open>The circular workflow\<close>

lemma circular_nodes:
  "map_of (nodes (workflow_circular c)) ''initialize'' = Some (initialize c)"
  "map_of (nodes (workflow_circular c)) ''showFlights'' = Some showFlights"
  "map_of (nodes (workflow_circular c)) ''requestChoice'' = Some requestChoice"
  "map_of (nodes (workflow_circular c)) ''disambiguateSelection'' = Some (disambiguateSelection c)"
  "map_of (nodes (workflow_circular c)) ''showFinalFlight'' = Some showFinalFlight"
  by (simp_all add: workflow_circular_def)

lemma circular_next:
  "next_node (workflow_circular c) ''initialize'' st = Some ''showFlights''"
  "next_node (workflow_circular c) ''showFlights'' st =
     Some (if length (get_docs st ''filteredFlights'') = 1 then ''showFinalFlight''
           else ''requestChoice'')"
  "next_node (workflow_circular c) ''requestChoice'' st = Some ''disambiguateSelection''"
  "next_node (workflow_circular c) ''disambiguateSelection'' st = Some ''showFlights''"
  "next_node (workflow_circular c) ''showFinalFlight'' st = Some ''__end__''"
  by (simp_all add: workflow_circular_def next_node_def showFlights_router_def)

lemma circular_start: "map_of (edges (workflow_circular c)) ''__start__'' = Some ''initialize''"
  by (simp add: workflow_circular_def)

lemma get_docs_upd [simp]:
  "get_docs (st(k \<mapsto> Docs ds)) k = ds"
  "k' \<noteq> k \<Longrightarrow> get_docs (st(k' \<mapsto> v)) k = get_docs st k"
  by (simp_all add: get_docs_def)

lemma get_str_upd [simp]:
  "get_str (st(k \<mapsto> Str s)) k = s"
  "k' \<noteq> k \<Longrightarrow> get_str (st(k' \<mapsto> v)) k = get_str st k"
  by (simp_all add: get_str_def)

lemma disambiguateSelection_returns:
  "disambiguateSelection c st =
     Returns (printed_by (disambiguateSelection c st))
       [''filteredFlights'' \<mapsto> Docs (updated_flights (disambiguateSelection c st))]"
  by (simp add: disambiguateSelection_def Let_def printed_by_def updated_flights_def)

text \<open>From \<open>showFlights\<close> on: the run ends through \<open>showFinalFlight\<close> with one flight
  and pauses at \<open>requestChoice\<close> otherwise.\<close>

lemma from_showFlights_Suc:
  "enter (Suc (Suc n)) (workflow_circular c) st ''showFlights'' log =
     (let flights = get_docs st ''filteredFlights''; st' = st(''filteredFlights'' \<mapsto> Docs flights)
      in if length flights = 1
         then \<lparr> outcome = Completed st',
                saved = \<lparr> cp_state = st', cp_cursor = ''__end__'', cp_interrupt = None \<rparr>,
                trace = log @ [Entered ''showFlights'', Console FoundUnique,
                               Entered ''showFinalFlight'', Console (FinalResult (flights ! 0))] \<rparr>
         else \<lparr> outcome = Suspended (Question question),
                saved = \<lparr> cp_state = st', cp_cursor = ''requestChoice'',
                          cp_interrupt = Some (Question question) \<rparr>,
                trace = log @ [Entered ''showFlights'', Console (AvailableFlights flights),
                               Entered ''requestChoice''] \<rparr>)"
  by (simp add: enter_Suc circular_nodes circular_next showFlights_def showFinalFlight_def
        requestChoice_def interrupt_def nth_opt_def Let_def)


lemma resume_circular:
  assumes "cps sid = Some cp" "cp_cursor cp = ''requestChoice''" "cp_interrupt cp = Some p"
  shows "resume fuel (workflow_circular c) cps \<lparr> sessionId = sid, resume_value = v \<rparr> =
           commit cps sid (enter fuel (workflow_circular c) ((cp_state cp)(''userChoice'' \<mapsto> v))
                             ''disambiguateSelection'' [])"
  by (simp add: resume_def assms circular_nodes requestChoice_def interrupt_def circular_next
        Let_def)

lemma from_disambiguateSelection_Suc:
  "enter (Suc (Suc (Suc n))) (workflow_circular c) st ''disambiguateSelection'' log =
     (let r = disambiguateSelection c st;
          flights = updated_flights r;
          st' = st(''filteredFlights'' \<mapsto> Docs flights);
          log' = log @ [Entered ''disambiguateSelection''] @ map Console (printed_by r)
      in if length flights = 1
         then \<lparr> outcome = Completed st',
                saved = \<lparr> cp_state = st', cp_cursor = ''__end__'', cp_interrupt = None \<rparr>,
                trace = log' @ [Entered ''showFlights'', Console FoundUnique,
                                Entered ''showFinalFlight'', Console (FinalResult (flights ! 0))] \<rparr>
         else \<lparr> outcome = Suspended (Question question),
                saved = \<lparr> cp_state = st', cp_cursor = ''requestChoice'',
                          cp_interrupt = Some (Question question) \<rparr>,
                trace = log' @ [Entered ''showFlights'', Console (AvailableFlights flights),
                                Entered ''requestChoice''] \<rparr>)"
proof -
  let ?g = "workflow_circular c"
  let ?r = "disambiguateSelection c st"
  have 1: "enter (Suc (Suc (Suc n))) ?g st ''disambiguateSelection'' log =
             drive (Suc (Suc n)) ?g st ''disambiguateSelection'' ?r
               (log @ [Entered ''disambiguateSelection''])"
    by (simp add: enter_Suc circular_nodes)
  have 2: "drive (Suc (Suc n)) ?g st ''disambiguateSelection''
             (Returns out [''filteredFlights'' \<mapsto> Docs fs]) l =
           enter (Suc (Suc n)) ?g (st(''filteredFlights'' \<mapsto> Docs fs)) ''showFlights''
             (l @ map Console out)" for out fs l
    by (simp add: circular_next Let_def)
  have 3: "drive (Suc (Suc n)) ?g st ''disambiguateSelection'' ?r l =
           enter (Suc (Suc n)) ?g (st(''filteredFlights'' \<mapsto> Docs (updated_flights ?r)))
             ''showFlights'' (l @ map Console (printed_by ?r))" for l
    using 2 [of "printed_by ?r" "updated_flights ?r" l] disambiguateSelection_returns [of c st]
    by simp
  show ?thesis
    by (simp add: 1 3 from_showFlights_Suc Let_def)
qed


lemma from_disambiguateSelection:
  assumes "3 \<le> fuel"
  shows "enter fuel (workflow_circular c) st ''disambiguateSelection'' log =
     (let r = disambiguateSelection c st;
          flights = updated_flights r;
          st' = st(''filteredFlights'' \<mapsto> Docs flights);
          log' = log @ [Entered ''disambiguateSelection''] @ map Console (printed_by r)
      in if length flights = 1
         then \<lparr> outcome = Completed st',
                saved = \<lparr> cp_state = st', cp_cursor = ''__end__'', cp_interrupt = None \<rparr>,
                trace = log' @ [Entered ''showFlights'', Console FoundUnique,
                                Entered ''showFinalFlight'', Console (FinalResult (flights ! 0))] \<rparr>
         else \<lparr> outcome = Suspended (Question question),
                saved = \<lparr> cp_state = st', cp_cursor = ''requestChoice'',
                          cp_interrupt = Some (Question question) \<rparr>,
                trace = log' @ [Entered ''showFlights'', Console (AvailableFlights flights),
                                Entered ''requestChoice''] \<rparr>)"
proof -
  from assms have "fuel = Suc (Suc (Suc (fuel - 3)))" by simp
  then show ?thesis
    using from_disambiguateSelection_Suc [of "fuel - 3" c st log] by simp
qed

lemma from_initialize_Suc:
  "enter (Suc (Suc (Suc n))) (workflow_circular c) st ''initialize'' log =
     (let flights = similaritySearch c (st ''input'') 10;
          st' = st(''filteredFlights'' \<mapsto> Docs flights);
          log' = log @ [Entered ''initialize'', Console (Retrieved (length flights))]
      in if length flights = 1
         then \<lparr> outcome = Completed st',
                saved = \<lparr> cp_state = st', cp_cursor = ''__end__'', cp_interrupt = None \<rparr>,
                trace = log' @ [Entered ''showFlights'', Console FoundUnique,
                                Entered ''showFinalFlight'', Console (FinalResult (flights ! 0))] \<rparr>
         else \<lparr> outcome = Suspended (Question question),
                saved = \<lparr> cp_state = st', cp_cursor = ''requestChoice'',
                          cp_interrupt = Some (Question question) \<rparr>,
                trace = log' @ [Entered ''showFlights'', Console (AvailableFlights flights),
                                Entered ''requestChoice''] \<rparr>)"
proof -
  have "enter (Suc (Suc (Suc n))) (workflow_circular c) st ''initialize'' log =
      enter (Suc (Suc n)) (workflow_circular c)
        (st(''filteredFlights'' \<mapsto> Docs (similaritySearch c (st ''input'') 10))) ''showFlights''
        (log @ [Entered ''initialize'',
                Console (Retrieved (length (similaritySearch c (st ''input'') 10)))])"
    by (simp add: enter_Suc [of "''initialize''"] circular_nodes circular_next initialize_def
          Let_def)
  then show ?thesis
    by (simp add: from_showFlights_Suc Let_def)
qed

lemma from_initialize:
  assumes "3 \<le> fuel"
  shows "enter fuel (workflow_circular c) st ''initialize'' log =
     (let flights = similaritySearch c (st ''input'') 10;
          st' = st(''filteredFlights'' \<mapsto> Docs flights);
          log' = log @ [Entered ''initialize'', Console (Retrieved (length flights))]
      in if length flights = 1
         then \<lparr> outcome = Completed st',
                saved = \<lparr> cp_state = st', cp_cursor = ''__end__'', cp_interrupt = None \<rparr>,
                trace = log' @ [Entered ''showFlights'', Console FoundUnique,
                                Entered ''showFinalFlight'', Console (FinalResult (flights ! 0))] \<rparr>
         else \<lparr> outcome = Suspended (Question question),
                saved = \<lparr> cp_state = st', cp_cursor = ''requestChoice'',
                          cp_interrupt = Some (Question question) \<rparr>,
                trace = log' @ [Entered ''showFlights'', Console (AvailableFlights flights),
                                Entered ''requestChoice''] \<rparr>)"
proof -
  from assms have "fuel = Suc (Suc (Suc (fuel - 3)))" by simp
  then show ?thesis
    using from_initialize_Suc [of "fuel - 3" c st log] by simp
qed

text \<open>
  C2. The routing function after \<open>showFlights\<close> answers \<^verbatim>\<open>final\<close> exactly when the
  \<^verbatim>\<open>filteredFlights\<close> channel holds one flight and \<^verbatim>\<open>continue\<close> otherwise. A resume of a
  session paused at \<open>requestChoice\<close> runs \<open>disambiguateSelection\<close> and comes back to
  \<open>showFlights\<close>; with one flight left it goes on through \<open>showFinalFlight\<close> to the end
  and completes, with any other number it pauses at \<open>requestChoice\<close> again.
\<close>

theorem showFlights_router_cycle:
  assumes "cps sid = Some cp"
    and "cp_cursor cp = ''requestChoice''"
    and "cp_interrupt cp = Some p"
    and "3 \<le> fuel"
  shows "((showFlights_router st = ''final'') = (length (get_docs st ''filteredFlights'') = 1)) \<and>
         ((showFlights_router st = ''continue'') = (length (get_docs st ''filteredFlights'') \<noteq> 1)) \<and>
         resume fuel (workflow_circular c) cps \<lparr> sessionId = sid, resume_value = v \<rparr> =
           (let st1 = (cp_state cp)(''userChoice'' \<mapsto> v);
                r = disambiguateSelection c st1;
                flights = updated_flights r;
                st' = st1(''filteredFlights'' \<mapsto> Docs flights);
                log' = Entered ''disambiguateSelection'' # map Console (printed_by r)
            in if length flights = 1
               then (\<lparr> result = Completed st',
                       printed = log' @ [Entered ''showFlights'', Console FoundUnique,
                                         Entered ''showFinalFlight'',
                                         Console (FinalResult (flights ! 0))] \<rparr>,
                     cps(sid \<mapsto> \<lparr> cp_state = st', cp_cursor = ''__end__'',
                                   cp_interrupt = None \<rparr>))
               else (\<lparr> result = Suspended (Question question),
                       printed = log' @ [Entered ''showFlights'',
                                         Console (AvailableFlights flights),
                                         Entered ''requestChoice''] \<rparr>,
                     cps(sid \<mapsto> \<lparr> cp_state = st', cp_cursor = ''requestChoice'',
                                   cp_interrupt = Some (Question question) \<rparr>)))"
proof -
  have "(showFlights_router st = ''final'') = (length (get_docs st ''filteredFlights'') = 1)"
    and "(showFlights_router st = ''continue'') = (length (get_docs st ''filteredFlights'') \<noteq> 1)"
    by (simp_all add: showFlights_router_def Let_def)
  moreover have "resume fuel (workflow_circular c) cps \<lparr> sessionId = sid, resume_value = v \<rparr> =
      commit cps sid (enter fuel (workflow_circular c) ((cp_state cp)(''userChoice'' \<mapsto> v))
                        ''disambiguateSelection'' [])"
    using assms(1-3) by (rule resume_circular)
  ultimately show ?thesis
    by (simp add: from_disambiguateSelection [OF assms(4)] commit_def Let_def)
qed


theorem showFlights_router_cycle_witness:
  "[''hitl-circular-thread'' \<mapsto> first_pause] ''hitl-circular-thread'' = Some first_pause \<and>
   cp_cursor first_pause = ''requestChoice'' \<and>
   cp_interrupt first_pause = Some (Question question) \<and> (3::nat) \<le> 25 \<and>
   result (fst (resume 25 (workflow_circular recorded) [''hitl-circular-thread'' \<mapsto> first_pause]
                  \<lparr> sessionId = ''hitl-circular-thread'',
                    resume_value = Str ''I am looking for flights to Japan'' \<rparr>)) =
     Suspended (Question question) \<and>
   map (\<lambda>r. ([x. Entered x \<leftarrow> printed r], [n. Console (FilteredTo n) \<leftarrow> printed r]))
     (fst (main_circular 25 recorded recorded_answers)) =
     [([''initialize'', ''showFlights'', ''requestChoice''], []),
      ([''disambiguateSelection'', ''showFlights'', ''requestChoice''], [5]),
      ([''disambiguateSelection'', ''showFlights'', ''requestChoice''], [2]),
      ([''disambiguateSelection'', ''showFlights'', ''showFinalFlight''], [1])]"
proof -
  have h1: "[''hitl-circular-thread'' \<mapsto> first_pause] ''hitl-circular-thread'' = Some first_pause"
    by simp
  have h2: "cp_cursor first_pause = ''requestChoice''"
    and h3: "cp_interrupt first_pause = Some (Question question)"
    by (simp_all add: first_pause_def)
  have h4: "(3::nat) \<le> 25" by simp
  have five: "length (updated_flights (disambiguateSelection recorded
               ((cp_state first_pause)(''userChoice'' \<mapsto> Str ''I am looking for flights to Japan'')))) = 5"
    by code_simp
  have run: "map (\<lambda>r. ([x. Entered x \<leftarrow> printed r], [n. Console (FilteredTo n) \<leftarrow> printed r]))
     (fst (main_circular 25 recorded recorded_answers)) =
     [([''initialize'', ''showFlights'', ''requestChoice''], []),
      ([''disambiguateSelection'', ''showFlights'', ''requestChoice''], [5]),
      ([''disambiguateSelection'', ''showFlights'', ''requestChoice''], [2]),
      ([''disambiguateSelection'', ''showFlights'', ''showFinalFlight''], [1])]"
    by code_simp
  have "result (fst (resume 25 (workflow_circular recorded) [''hitl-circular-thread'' \<mapsto> first_pause]
                  \<lparr> sessionId = ''hitl-circular-thread'',
                    resume_value = Str ''I am looking for flights to Japan'' \<rparr>)) =
     Suspended (Question question)"
    using h1 h2 h3 h4 five
      showFlights_router_cycle
        [where cps = "[''hitl-circular-thread'' \<mapsto> first_pause]"
           and sid = "''hitl-circular-thread''" and cp = first_pause and p = "Question question"
           and fuel = 25 and c = recorded and st = Map.empty
           and v = "Str ''I am looking for flights to Japan''"]
    by (simp add: Let_def)
  with h1 h2 h3 h4 run show ?thesis by blast
qed

subsection \<open>Selecting by number\<close>

lemma is_digit_char_of: "(n::nat) < 10 \<Longrightarrow> is_digit (char_of (48 + n))"
  by (simp add: is_digit_def)

lemma digit_val_char_of: "(n::nat) < 10 \<Longrightarrow> digit_val (char_of (48 + n)) = n"
  by (simp add: digit_val_def)

lemma show_nat_digits: "list_all is_digit (show_nat n)"
  by (induction n rule: show_nat.induct) (subst show_nat.simps, simp add: is_digit_char_of)

lemma show_nat_nonempty: "show_nat n \<noteq> []"
  by (subst show_nat.simps) simp

lemma digits_value_snoc:
  "digits_value acc (cs @ [c]) = 10 * digits_value acc cs + digit_val c"
  by (induction cs arbitrary: acc) simp_all

lemma digits_value_show_nat: "digits_value 0 (show_nat n) = n"
proof (induction n rule: show_nat.induct)
  case (1 n)
  show ?case
  proof (cases "n < 10")
    case True
    then show ?thesis by (subst show_nat.simps) (simp add: digit_val_char_of)
  next
    case False
    with 1 have "digits_value 0 (show_nat (n div 10)) = n div 10" by simp
    with False show ?thesis
      by (subst show_nat.simps) (simp add: digits_value_snoc digit_val_char_of)
  qed
qed

lemma is_digit_not_space: "is_digit c \<Longrightarrow> \<not> is_space c"
  by (auto simp: is_digit_def is_space_def)

lemma is_digit_not_sign: "is_digit c \<Longrightarrow> c \<noteq> CHR ''-'' \<and> c \<noteq> CHR ''+''"
  by (auto simp: is_digit_def)

lemma parseInt10_digits:
  assumes "numberRegex s"
  shows "parseInt10 s = Some (int (digits_value 0 s))"
proof -
  from assms obtain c cs where s: "s = c # cs" and c: "is_digit c" and all: "list_all is_digit s"
    by (cases s) (auto simp: numberRegex_def)
  from all s have tw: "takeWhile is_digit cs = cs"
    by (simp add: list_all_iff)
  from s c is_digit_not_space [OF c] is_digit_not_sign [OF c] show ?thesis
    by (simp add: parseInt10_def Let_def tw)
qed

lemma numberRegex_show_nat: "numberRegex (show_nat n)"
  by (simp add: numberRegex_def show_nat_digits show_nat_nonempty)

lemma parseInt10_show_nat: "parseInt10 (show_nat n) = Some (int n)"
  by (simp add: parseInt10_digits numberRegex_show_nat digits_value_show_nat)

lemma show_nat_3: "show_nat 3 = ''3''"
  by code_simp


lemma disambiguateSelection_numeric:
  assumes "1 \<le> k" and "k \<le> length (get_docs st ''filteredFlights'')"
    and "get_str st ''userChoice'' = show_nat k"
  shows "disambiguateSelection c st =
           Returns [SelectedFlightNo (show_nat k)]
             [''filteredFlights'' \<mapsto> Docs [get_docs st ''filteredFlights'' ! (k - 1)]]"
proof -
  from assms(1,2) have "in_range (minus_one (parseInt10 (show_nat k)))
                          (length (get_docs st ''filteredFlights''))"
    by (simp add: parseInt10_show_nat minus_one_def in_range_def)
  moreover from assms(1) have "nat (the (minus_one (parseInt10 (show_nat k)))) = k - 1"
    by (simp add: parseInt10_show_nat minus_one_def)
  ultimately show ?thesis
    by (simp add: disambiguateSelection_def Let_def assms(3) numberRegex_show_nat)
qed

lemma invoke_circular:
  assumes "cps sid = None" and "3 \<le> fuel"
  shows "invoke fuel (workflow_circular c) cps sid initialInput =
           commit cps sid (enter fuel (workflow_circular c) initialInput ''initialize'' [])"
  by (simp add: invoke_def assms circular_start)

text \<open>
  C5. In the circular workflow, with at least three flights found a first \<open>invoke\<close>
  pauses at \<open>requestChoice\<close> with the question as its payload. A session paused there
  that is resumed with the decimal numeral of a number \<open>k\<close> between one and the number of
  flights completes with exactly the \<open>k\<close>-th flight in \<^verbatim>\<open>filteredFlights\<close>; the result
  names no reply of the language model. For \<open>k = 3\<close> the value is the string \<^verbatim>\<open>3\<close> and
  the third flight is selected.
\<close>

theorem numeric_reply_selects:
  assumes three: "3 \<le> length flights"
    and fuel: "3 \<le> fuel"
    and k: "1 \<le> k" "k \<le> length flights"
  shows "(cps sid = None \<and> similaritySearch c (initialInput ''input'') 10 = flights \<longrightarrow>
            invoke fuel (workflow_circular c) cps sid initialInput =
              (\<lparr> result = Suspended (Question question),
                 printed = [Entered ''initialize'', Console (Retrieved (length flights)),
                            Entered ''showFlights'', Console (AvailableFlights flights),
                            Entered ''requestChoice''] \<rparr>,
               cps(sid \<mapsto> \<lparr> cp_state = initialInput(''filteredFlights'' \<mapsto> Docs flights),
                             cp_cursor = ''requestChoice'',
                             cp_interrupt = Some (Question question) \<rparr>))) \<and>
         (cps sid = Some cp \<and> cp_cursor cp = ''requestChoice'' \<and> cp_interrupt cp = Some p \<and>
          get_docs (cp_state cp) ''filteredFlights'' = flights \<longrightarrow>
            resume fuel (workflow_circular c) cps
                \<lparr> sessionId = sid, resume_value = Str (show_nat k) \<rparr> =
              (\<lparr> result = Completed ((cp_state cp)(''userChoice'' \<mapsto> Str (show_nat k),
                                         ''filteredFlights'' \<mapsto> Docs [flights ! (k - 1)])),
                 printed = [Entered ''disambiguateSelection'',
                            Console (SelectedFlightNo (show_nat k)),
                            Entered ''showFlights'', Console FoundUnique,
                            Entered ''showFinalFlight'',
                            Console (FinalResult (flights ! (k - 1)))] \<rparr>,
               cps(sid \<mapsto> \<lparr> cp_state = (cp_state cp)(''userChoice'' \<mapsto> Str (show_nat k),
                                         ''filteredFlights'' \<mapsto> Docs [flights ! (k - 1)]),
                             cp_cursor = ''__end__'', cp_interrupt = None \<rparr>)))"
proof (intro conjI impI)
  assume "cps sid = None \<and> similaritySearch c (initialInput ''input'') 10 = flights"
  with three fuel show "invoke fuel (workflow_circular c) cps sid initialInput =
              (\<lparr> result = Suspended (Question question),
                 printed = [Entered ''initialize'', Console (Retrieved (length flights)),
                            Entered ''showFlights'', Console (AvailableFlights flights),
                            Entered ''requestChoice''] \<rparr>,
               cps(sid \<mapsto> \<lparr> cp_state = initialInput(''filteredFlights'' \<mapsto> Docs flights),
                             cp_cursor = ''requestChoice'',
                             cp_interrupt = Some (Question question) \<rparr>))"
    by (simp add: invoke_circular from_initialize commit_def Let_def)
next
  assume a: "cps sid = Some cp \<and> cp_cursor cp = ''requestChoice'' \<and> cp_interrupt cp = Some p \<and>
          get_docs (cp_state cp) ''filteredFlights'' = flights"
  let ?st1 = "(cp_state cp)(''userChoice'' \<mapsto> Str (show_nat k))"
  from a k have d: "disambiguateSelection c ?st1 =
           Returns [SelectedFlightNo (show_nat k)]
             [''filteredFlights'' \<mapsto> Docs [flights ! (k - 1)]]"
    using disambiguateSelection_numeric [of k ?st1 c] by simp
  from a have "resume fuel (workflow_circular c) cps
                \<lparr> sessionId = sid, resume_value = Str (show_nat k) \<rparr> =
      commit cps sid (enter fuel (workflow_circular c) ?st1 ''disambiguateSelection'' [])"
    by (simp add: resume_circular)
  then show "resume fuel (workflow_circular c) cps
                \<lparr> sessionId = sid, resume_value = Str (show_nat k) \<rparr> =
              (\<lparr> result = Completed ((cp_state cp)(''userChoice'' \<mapsto> Str (show_nat k),
                                         ''filteredFlights'' \<mapsto> Docs [flights ! (k - 1)])),
                 printed = [Entered ''disambiguateSelection'',
                            Console (SelectedFlightNo (show_nat k)),
                            Entered ''showFlights'', Console FoundUnique,
                            Entered ''showFinalFlight'',
                            Console (FinalResult (flights ! (k - 1)))] \<rparr>,
               cps(sid \<mapsto> \<lparr> cp_state = (cp_state cp)(''userChoice'' \<mapsto> Str (show_nat k),
                                         ''filteredFlights'' \<mapsto> Docs [flights ! (k - 1)]),
                             cp_cursor = ''__end__'', cp_interrupt = None \<rparr>))"
    by (simp add: from_disambiguateSelection [OF fuel] d commit_def Let_def updated_flights_def
          printed_by_def)
qed

theorem numeric_reply_selects_witness:
  "(3::nat) \<le> length recorded_flights \<and> (3::nat) \<le> 25 \<and> (1::nat) \<le> 3 \<and>
   result (fst (invoke 25 (workflow_circular recorded) Map.empty ''hitl-circular-thread''
                  [''input'' \<mapsto> Str ''Flights to Asia''])) = Suspended (Question question) \<and>
   snd (invoke 25 (workflow_circular recorded) Map.empty ''hitl-circular-thread''
          [''input'' \<mapsto> Str ''Flights to Asia'']) = [''hitl-circular-thread'' \<mapsto> first_pause] \<and>
   result (fst (resume 25 (workflow_circular recorded) [''hitl-circular-thread'' \<mapsto> first_pause]
                  \<lparr> sessionId = ''hitl-circular-thread'', resume_value = Str ''3'' \<rparr>)) =
     Completed [''input'' \<mapsto> Str ''Flights to Asia'',
                ''filteredFlights'' \<mapsto> Docs recorded_flights,
                ''userChoice'' \<mapsto> Str ''3'',
                ''filteredFlights'' \<mapsto> Docs [recorded_flights ! 2]]"
proof -
  have h1: "(3::nat) \<le> length recorded_flights"
    by (simp add: recorded_flights_def)
  have h2: "(3::nat) \<le> 25" and h3: "(1::nat) \<le> 3" and h4: "(3::nat) \<le> length recorded_flights"
    using h1 by simp_all
  have s: "similaritySearch recorded ([''input'' \<mapsto> Str ''Flights to Asia''] ''input'') 10 =
             recorded_flights"
    by (simp add: recorded_def recorded_flights_def)
  have p: "cp_cursor first_pause = ''requestChoice'' \<and>
           cp_interrupt first_pause = Some (Question question) \<and>
           cp_state first_pause = [''input'' \<mapsto> Str ''Flights to Asia'',
                                   ''filteredFlights'' \<mapsto> Docs recorded_flights]"
    by (simp add: first_pause_def)
  show ?thesis
    using h1 h2 h3 s p show_nat_3
      numeric_reply_selects
        [where flights = recorded_flights and fuel = 25 and k = 3 and c = recorded
           and cps = Map.empty and sid = "''hitl-circular-thread''"
           and initialInput = "[''input'' \<mapsto> Str ''Flights to Asia'']"]
      numeric_reply_selects
        [where flights = recorded_flights and fuel = 25 and k = 3 and c = recorded
           and cps = "[''hitl-circular-thread'' \<mapsto> first_pause]"
           and sid = "''hitl-circular-thread''" and cp = first_pause
           and p = "Question question"]
    by (simp add: first_pause_def)
qed

subsection \<open>The final node is reached with one flight\<close>

lemma enter_unknown:
  "cur \<noteq> ''__end__'' \<Longrightarrow> map_of (nodes g) cur = None \<Longrightarrow>
   enter (Suc fuel) g st cur log =
     \<lparr> outcome = Failed GraphDefinitionError,
       saved = \<lparr> cp_state = st, cp_cursor = cur, cp_interrupt = None \<rparr>,
       trace = log \<rparr>"
  by (simp add: enter.simps)

lemma circular_unknown:
  "cur \<notin> {''initialize'', ''showFlights'', ''requestChoice'', ''disambiguateSelection'',
           ''showFinalFlight''} \<Longrightarrow> map_of (nodes (workflow_circular c)) cur = None"
  by (simp add: workflow_circular_def)

lemma disambiguateSelection_prints:
  "NoFlightFound \<notin> set (printed_by (disambiguateSelection c st))"
  by (simp add: disambiguateSelection_def printed_by_def Let_def)

lemma Console_inj [simp]: "Console x \<in> Console ` A \<longleftrightarrow> x \<in> A"
  by auto

text \<open>Whatever node a run of the circular workflow starts at, and however many steps
  it is given, it never prints the message of the missing flight, and the checkpoint it
  leaves is routed.\<close>

lemma circular_run_routed:
  assumes "cur = ''showFinalFlight'' \<longrightarrow> length (get_docs st ''filteredFlights'') = 1"
    and "Console NoFlightFound \<notin> set log"
  shows "Console NoFlightFound \<notin> set (trace (enter fuel (workflow_circular c) st cur log)) \<and>
         routed (saved (enter fuel (workflow_circular c) st cur log))"
  using assms
proof (induction fuel arbitrary: st cur log)
  case 0
  then show ?case
    by (cases "cur = ''__end__''") (simp_all add: enter_0 routed_def)
next
  case (Suc fuel)
  let ?g = "workflow_circular c"
  consider (e) "cur = ''__end__''" | (i) "cur = ''initialize''" | (s) "cur = ''showFlights''"
    | (r) "cur = ''requestChoice''" | (d) "cur = ''disambiguateSelection''"
    | (f) "cur = ''showFinalFlight''"
    | (u) "cur \<noteq> ''__end__''" "cur \<notin> {''initialize'', ''showFlights'', ''requestChoice'',
             ''disambiguateSelection'', ''showFinalFlight''}"
    unfolding insert_iff empty_iff by argo
  then show ?case
  proof cases
    case e
    with Suc.prems show ?thesis by (simp add: routed_def)
  next
    case i
    have "enter (Suc fuel) ?g st cur log =
          enter fuel ?g (st(''filteredFlights'' \<mapsto> Docs (similaritySearch c (st ''input'') 10)))
            ''showFlights''
            (log @ [Entered ''initialize'',
                    Console (Retrieved (length (similaritySearch c (st ''input'') 10)))])"
      by (simp add: i enter_Suc [of "''initialize''"] circular_nodes circular_next initialize_def
            Let_def)
    with Suc.prems Suc.IH show ?thesis by simp
  next
    case s
    let ?fs = "get_docs st ''filteredFlights''"
    let ?st = "st(''filteredFlights'' \<mapsto> Docs ?fs)"
    show ?thesis
    proof (cases "length ?fs = 1")
      case True
      let ?log = "log @ [Entered ''showFlights'', Console FoundUnique]"
      from True have eq: "enter (Suc fuel) ?g st cur log = enter fuel ?g ?st ''showFinalFlight'' ?log"
        by (simp add: s enter_Suc [of "''showFlights''"] circular_nodes circular_next
              showFlights_def Let_def)
      have "Console NoFlightFound \<notin> set (trace (enter fuel ?g ?st ''showFinalFlight'' ?log)) \<and>
            routed (saved (enter fuel ?g ?st ''showFinalFlight'' ?log))"
        using True Suc.prems(2) by (intro Suc.IH) (simp_all add: get_docs_def)
      with eq show ?thesis by simp
    next
      case False
      let ?log = "log @ [Entered ''showFlights'', Console (AvailableFlights ?fs)]"
      from False have eq: "enter (Suc fuel) ?g st cur log = enter fuel ?g ?st ''requestChoice'' ?log"
        by (simp add: s enter_Suc [of "''showFlights''"] circular_nodes circular_next
              showFlights_def Let_def)
      have "Console NoFlightFound \<notin> set (trace (enter fuel ?g ?st ''requestChoice'' ?log)) \<and>
            routed (saved (enter fuel ?g ?st ''requestChoice'' ?log))"
        using Suc.prems(2) by (intro Suc.IH) simp_all
      with eq show ?thesis by simp
    qed
  next
    case r
    with Suc.prems show ?thesis
      by (simp add: enter_Suc [of "''requestChoice''"] circular_nodes requestChoice_def
            interrupt_def routed_def)
  next
    case d
    let ?r = "disambiguateSelection c st"
    have "enter (Suc fuel) ?g st cur log =
          drive fuel ?g st ''disambiguateSelection''
            (Returns (printed_by ?r) [''filteredFlights'' \<mapsto> Docs (updated_flights ?r)])
            (log @ [Entered ''disambiguateSelection''])"
      using disambiguateSelection_returns [of c st]
      by (simp add: d enter_Suc [of "''disambiguateSelection''"] circular_nodes)
    then have "enter (Suc fuel) ?g st cur log =
          enter fuel ?g (st(''filteredFlights'' \<mapsto> Docs (updated_flights ?r))) ''showFlights''
            (log @ [Entered ''disambiguateSelection''] @ map Console (printed_by ?r))"
      by (simp add: circular_next Let_def)
    with Suc.prems Suc.IH disambiguateSelection_prints [of c st] show ?thesis by simp
  next
    case f
    with Suc.prems have one: "length (get_docs st ''filteredFlights'') = 1" by simp
    then have "showFinalFlight st =
                 Returns [FinalResult (get_docs st ''filteredFlights'' ! 0)] Map.empty"
      by (auto simp: showFinalFlight_def nth_opt_def Let_def)
    with Suc.prems show ?thesis
      by (simp add: f enter_Suc [of "''showFinalFlight''"] circular_nodes circular_next Let_def
            routed_def)
  next
    case u
    with Suc.prems show ?thesis
      by (simp add: enter_unknown circular_unknown routed_def)
  qed
qed


lemma showFinalFlight_no_flight:
  "get_docs st ''filteredFlights'' = [] \<Longrightarrow> showFinalFlight st = Returns [NoFlightFound] Map.empty"
  by (simp add: showFinalFlight_def nth_opt_def)

lemma showFinalFlight_one_flight:
  "length (get_docs st ''filteredFlights'') = 1 \<Longrightarrow>
   showFinalFlight st = Returns [FinalResult (get_docs st ''filteredFlights'' ! 0)] Map.empty"
  by (auto simp: showFinalFlight_def nth_opt_def Let_def)

lemma to_showFinalFlight:
  assumes "next_node (workflow_circular c) cur st = Some ''showFinalFlight''"
  shows "cur = ''showFlights'' \<and> length (get_docs st ''filteredFlights'') = 1"
  using assms
  by (auto simp: next_node_def workflow_circular_def showFlights_router_def Let_def
        split: if_splits)

lemma invoke_routed:
  assumes "routed_session cps sid"
  shows "Console NoFlightFound \<notin>
           set (printed (fst (invoke fuel (workflow_circular c) cps sid initialInput))) \<and>
         routed_session (snd (invoke fuel (workflow_circular c) cps sid initialInput)) sid"
proof (cases "cps sid")
  case None
  then show ?thesis
    using circular_run_routed [of "''initialize''" initialInput "[]" fuel c]
    by (simp add: invoke_def circular_start commit_def routed_session_def)
next
  case (Some cp)
  show ?thesis
  proof (cases "cp_interrupt cp")
    case None
    from assms Some have "routed cp" by (simp add: routed_session_def)
    then have "cp_cursor cp = ''showFinalFlight'' \<longrightarrow>
                 length (get_docs (cp_state cp) ''filteredFlights'') = 1"
      by (simp add: routed_def)
    then show ?thesis
      using Some None circular_run_routed [of "cp_cursor cp" "cp_state cp" "[]" fuel c]
      by (simp add: invoke_def commit_def routed_session_def)
  next
    case (Some p)
    with \<open>cps sid = Some cp\<close> assms show ?thesis
      by (simp add: invoke_def reject_def)
  qed
qed

lemma resume_routed:
  assumes "routed_session cps sid"
  shows "Console NoFlightFound \<notin>
           set (printed (fst (resume fuel (workflow_circular c) cps
                               \<lparr> sessionId = sid, resume_value = v \<rparr>))) \<and>
         routed_session (snd (resume fuel (workflow_circular c) cps
                               \<lparr> sessionId = sid, resume_value = v \<rparr>)) sid"
proof (cases "cps sid")
  case None
  with assms show ?thesis by (simp add: resume_def reject_def)
next
  case (Some cp)
  show ?thesis
  proof (cases "cp_interrupt cp")
    case None
    with Some assms show ?thesis by (simp add: resume_def reject_def)
  next
    case (Some p)
    with \<open>cps sid = Some cp\<close> assms have cur: "cp_cursor cp = ''requestChoice''"
      by (simp add: routed_session_def routed_def)
    show ?thesis
      using \<open>cps sid = Some cp\<close> cur Some
        resume_circular [where cps = cps and sid = sid and cp = cp and p = p and fuel = fuel
                           and c = c and v = v]
        circular_run_routed [of "''disambiguateSelection''"
          "(cp_state cp)(''userChoice'' \<mapsto> v)" "[]" fuel c]
      by (simp add: commit_def routed_session_def)
  qed
qed

text \<open>
  C10. In the circular workflow the only way into \<open>showFinalFlight\<close> is the label
  \<^verbatim>\<open>final\<close> after \<open>showFlights\<close>, given only in a state whose \<^verbatim>\<open>filteredFlights\<close> holds
  exactly one flight, and in that state \<open>showFinalFlight\<close> prints the flight. Sessions
  start routed and every \<open>invoke\<close> and resume keeps them routed, so no call on such a
  session ever prints \<open>NoFlightFound\<close>, the message of the branch for a missing flight.
\<close>

theorem showFinalFlight_has_one_flight:
  "(next_node (workflow_circular c) cur st = Some ''showFinalFlight'' \<longrightarrow>
      cur = ''showFlights'' \<and> length (get_docs st ''filteredFlights'') = 1 \<and>
      showFinalFlight st = Returns [FinalResult (get_docs st ''filteredFlights'' ! 0)] Map.empty) \<and>
   routed_session Map.empty sid \<and>
   (routed_session cps sid \<longrightarrow>
      Console NoFlightFound \<notin>
        set (printed (fst (invoke fuel (workflow_circular c) cps sid initialInput))) \<and>
      routed_session (snd (invoke fuel (workflow_circular c) cps sid initialInput)) sid \<and>
      Console NoFlightFound \<notin>
        set (printed (fst (resume fuel (workflow_circular c) cps
                            \<lparr> sessionId = sid, resume_value = v \<rparr>))) \<and>
      routed_session (snd (resume fuel (workflow_circular c) cps
                            \<lparr> sessionId = sid, resume_value = v \<rparr>)) sid)"
  using to_showFinalFlight [of c cur st] showFinalFlight_one_flight [of st]
    invoke_routed [of cps sid fuel c initialInput] resume_routed [of cps sid fuel c v]
  by (simp add: routed_session_def)

theorem showFinalFlight_has_one_flight_witness:
  "next_node (workflow_circular recorded) ''showFlights''
     [''filteredFlights'' \<mapsto> Docs [recorded_flights ! 9]] = Some ''showFinalFlight'' \<and>
   routed_session [''hitl-circular-thread'' \<mapsto> first_pause] ''hitl-circular-thread'' \<and>
   showFinalFlight [''filteredFlights'' \<mapsto> Docs [recorded_flights ! 9]] =
     Returns [FinalResult (recorded_flights ! 9)] Map.empty \<and>
   Console NoFlightFound \<notin>
     set (printed (fst (resume 25 (workflow_circular recorded)
                          [''hitl-circular-thread'' \<mapsto> first_pause]
                          \<lparr> sessionId = ''hitl-circular-thread'', resume_value = Str ''10'' \<rparr>)))"
proof -
  have h1: "next_node (workflow_circular recorded) ''showFlights''
     [''filteredFlights'' \<mapsto> Docs [recorded_flights ! 9]] = Some ''showFinalFlight''"
    by (simp add: circular_next)
  have h2: "routed_session [''hitl-circular-thread'' \<mapsto> first_pause] ''hitl-circular-thread''"
    by (simp add: routed_session_def routed_def first_pause_def)
  show ?thesis
    using h1 h2
      showFinalFlight_has_one_flight
        [where c = recorded and cur = "''showFlights''"
           and st = "[''filteredFlights'' \<mapsto> Docs [recorded_flights ! 9]]"
           and cps = "[''hitl-circular-thread'' \<mapsto> first_pause]"
           and sid = "''hitl-circular-thread''" and fuel = 25 and v = "Str ''10''"]
    by simp
qed

section \<open>Routing labels and validation\<close>

lemma showFlights_router_range: "range showFlights_router = {''final'', ''continue''}"
proof
  show "range showFlights_router \<subseteq> {''final'', ''continue''}"
    by (auto simp: showFlights_router_def Let_def)
  have "showFlights_router [''filteredFlights'' \<mapsto> Docs [d]] = ''final''" for d
    by (simp add: showFlights_router_def)
  moreover have "showFlights_router Map.empty = ''continue''"
    by (simp add: showFlights_router_def get_docs_def)
  ultimately show "{''final'', ''continue''} \<subseteq> range showFlights_router"
    by (metis empty_subsetI insert_subset rangeI)
qed

lemma evaluateResults_router_range: "range evaluateResults_router = {''complete'', ''multiple''}"
proof
  show "range evaluateResults_router \<subseteq> {''complete'', ''multiple''}"
    by (auto simp: evaluateResults_router_def)
  have "evaluateResults_router [''final'' \<mapsto> Str (formatFlightDetails m)] = ''complete''" for m
    by (simp add: evaluateResults_router_def truthy_def formatFlightDetails_nonempty)
  moreover have "evaluateResults_router Map.empty = ''multiple''"
    by (simp add: evaluateResults_router_def truthy_def)
  ultimately show "{''complete'', ''multiple''} \<subseteq> range evaluateResults_router"
    by (metis empty_subsetI insert_subset rangeI)
qed

lemma validate_circular: "validate (workflow_circular c)"
  by (simp add: validate_def workflow_circular_def node_ids_def showFlights_router_def Let_def)

lemma validate_linear: "validate (workflow_linear c)"
  by (simp add: validate_def workflow_linear_def node_ids_def evaluateResults_router_def)

text \<open>
  C7. The routing function after \<open>showFlights\<close> returns exactly the labels \<^verbatim>\<open>final\<close> and
  \<^verbatim>\<open>continue\<close>, the one after \<open>evaluateResults\<close> exactly \<^verbatim>\<open>complete\<close> and \<^verbatim>\<open>multiple\<close>;
  these are the keys of their label mappings, so in every state the lookup of the
  destination succeeds, and both graphs pass the validation of section 4.1.
\<close>

theorem routing_labels_are_mapped:
  "range showFlights_router = {''final'', ''continue''} \<and>
   range evaluateResults_router = {''complete'', ''multiple''} \<and>
   next_node (workflow_circular c) ''showFlights'' st =
     map_of [(''final'', ''showFinalFlight''), (''continue'', ''requestChoice'')]
       (showFlights_router st) \<and>
   next_node (workflow_circular c) ''showFlights'' st \<noteq> None \<and>
   next_node (workflow_linear c) ''evaluateResults'' st =
     map_of [(''complete'', ''__end__''), (''multiple'', ''showResults'')]
       (evaluateResults_router st) \<and>
   next_node (workflow_linear c) ''evaluateResults'' st \<noteq> None \<and>
   validate (workflow_circular c) \<and> validate (workflow_linear c)"
proof -
  have "next_node (workflow_circular c) ''showFlights'' st =
          map_of [(''final'', ''showFinalFlight''), (''continue'', ''requestChoice'')]
            (showFlights_router st)"
    and "next_node (workflow_circular c) ''showFlights'' st \<noteq> None"
    by (simp_all add: circular_next showFlights_router_def Let_def)
  moreover have "next_node (workflow_linear c) ''evaluateResults'' st =
          map_of [(''complete'', ''__end__''), (''multiple'', ''showResults'')]
            (evaluateResults_router st)"
    and "next_node (workflow_linear c) ''evaluateResults'' st \<noteq> None"
    by (simp_all add: linear_next evaluateResults_router_def)
  ultimately show ?thesis
    using showFlights_router_range evaluateResults_router_range validate_circular [of c]
      validate_linear [of c]
    by blast
qed

theorem routing_labels_are_mapped_witness:
  "validate (workflow_circular recorded) \<and> validate (workflow_linear recorded) \<and>
   showFlights_router (cp_state first_pause) = ''continue'' \<and>
   next_node (workflow_circular recorded) ''showFlights'' (cp_state first_pause) =
     Some ''requestChoice''"
  using routing_labels_are_mapped [of recorded "cp_state first_pause"]
  by (simp add: first_pause_def showFlights_router_def recorded_flights_def)

section \<open>Pausing and resuming\<close>

text \<open>A run leaves a pending interrupt in its checkpoint exactly when it pauses.\<close>

lemma saved_interrupt:
  "cp_interrupt (saved (drive fuel g st cur r log)) =
     (case outcome (drive fuel g st cur r log) of Suspended p \<Rightarrow> Some p | _ \<Rightarrow> None)"
  "cp_interrupt (saved (enter fuel g st cur log)) =
     (case outcome (enter fuel g st cur log) of Suspended p \<Rightarrow> Some p | _ \<Rightarrow> None)"
proof (induction fuel g st cur r log and fuel g st cur log rule: drive_enter.induct)
  case (1 fuel g st cur e log)
  show ?case by simp
next
  case (2 fuel g st cur p k log)
  show ?case by simp
next
  case (3 fuel g st cur out partialUpdate log)
  then show ?case by (simp add: Let_def split: option.splits)
next
  case (4 fuel g st cur log)
  then show ?case
    by (subst (1 2) enter.simps) (simp split: nat.splits option.splits)
qed

text \<open>With no value at hand the run without pauses is the engine's run.\<close>

declare enter_sync.simps [simp del]

lemma drive_sync_nil:
  "drive_sync fuel g [] st cur r log = drive fuel g st cur r log"
  "enter_sync fuel g [] st cur log = enter fuel g st cur log"
proof (induction fuel g st cur r log and fuel g st cur log rule: drive_enter.induct)
  case (1 fuel g st cur e log)
  show ?case by simp
next
  case (2 fuel g st cur p k log)
  show ?case by simp
next
  case (3 fuel g st cur out partialUpdate log)
  then show ?case by (simp add: Let_def split: option.splits)
next
  case (4 fuel g st cur log)
  then show ?case
    by (subst enter.simps, subst enter_sync.simps) (simp split: nat.splits option.splits)
qed

lemma resume_linear:
  assumes "cps sid = Some cp" "cp_cursor cp = ''requestUserChoice''" "cp_interrupt cp = Some p"
  shows "resume fuel (workflow_linear c) cps \<lparr> sessionId = sid, resume_value = v \<rparr> =
           commit cps sid (enter fuel (workflow_linear c) ((cp_state cp)(''userChoice'' \<mapsto> v))
                             ''disambiguateAndAnswer'' [])"
  by (simp add: resume_def assms linear_nodes requestUserChoice_def interrupt_def linear_next
        Let_def)

text \<open>
  C1. Resuming a session paused at \<open>requestChoice\<close> (or, in the linear workflow, at
  \<open>requestUserChoice\<close>) with a value \<open>v\<close> is the run without pauses of that node with \<open>v\<close>
  at hand, from the state of the checkpoint. That run is the one in which the node has
  returned the partial update \<^verbatim>\<open>{ userChoice: v }\<close>: the node after it is entered on the
  state of the checkpoint with \<^verbatim>\<open>userChoice\<close> set to \<open>v\<close>, and the log of the resumed call
  starts empty, so the paused node is not entered a second time.
\<close>

theorem resume_is_synchronous_return:
  assumes "cps sid = Some cp" and "cp_interrupt cp = Some p"
  shows "(cp_cursor cp = ''requestChoice'' \<longrightarrow>
            resume fuel (workflow_circular c) cps \<lparr> sessionId = sid, resume_value = v \<rparr> =
              commit cps sid (drive_sync fuel (workflow_circular c) [v] (cp_state cp)
                                ''requestChoice'' (requestChoice (cp_state cp)) []) \<and>
            drive_sync fuel (workflow_circular c) [v] (cp_state cp)
                ''requestChoice'' (requestChoice (cp_state cp)) [] =
              drive fuel (workflow_circular c) (cp_state cp) ''requestChoice''
                (Returns [] [''userChoice'' \<mapsto> v]) [] \<and>
            drive fuel (workflow_circular c) (cp_state cp) ''requestChoice''
                (Returns [] [''userChoice'' \<mapsto> v]) [] =
              enter fuel (workflow_circular c) ((cp_state cp)(''userChoice'' \<mapsto> v))
                ''disambiguateSelection'' []) \<and>
         (cp_cursor cp = ''requestUserChoice'' \<longrightarrow>
            resume fuel (workflow_linear c) cps \<lparr> sessionId = sid, resume_value = v \<rparr> =
              commit cps sid (drive_sync fuel (workflow_linear c) [v] (cp_state cp)
                                ''requestUserChoice'' (requestUserChoice (cp_state cp)) []) \<and>
            drive_sync fuel (workflow_linear c) [v] (cp_state cp)
                ''requestUserChoice'' (requestUserChoice (cp_state cp)) [] =
              drive fuel (workflow_linear c) (cp_state cp) ''requestUserChoice''
                (Returns [] [''userChoice'' \<mapsto> v]) [] \<and>
            drive fuel (workflow_linear c) (cp_state cp) ''requestUserChoice''
                (Returns [] [''userChoice'' \<mapsto> v]) [] =
              enter fuel (workflow_linear c) ((cp_state cp)(''userChoice'' \<mapsto> v))
                ''disambiguateAndAnswer'' [])"
proof (intro conjI impI)
  assume cur: "cp_cursor cp = ''requestChoice''"
  let ?g = "workflow_circular c"
  show 1: "drive fuel ?g (cp_state cp) ''requestChoice'' (Returns [] [''userChoice'' \<mapsto> v]) [] =
        enter fuel ?g ((cp_state cp)(''userChoice'' \<mapsto> v)) ''disambiguateSelection'' []"
    by (simp add: circular_next Let_def)
  show 2: "drive_sync fuel ?g [v] (cp_state cp) ''requestChoice'' (requestChoice (cp_state cp)) [] =
        drive fuel ?g (cp_state cp) ''requestChoice'' (Returns [] [''userChoice'' \<mapsto> v]) []"
    by (simp add: requestChoice_def interrupt_def drive_sync_nil circular_next Let_def)
  show "resume fuel ?g cps \<lparr> sessionId = sid, resume_value = v \<rparr> =
        commit cps sid (drive_sync fuel ?g [v] (cp_state cp) ''requestChoice''
                          (requestChoice (cp_state cp)) [])"
    using resume_circular [where cps = cps and sid = sid and cp = cp and p = p and fuel = fuel
                             and c = c and v = v] assms cur
    by (simp only: 1 2)
next
  assume cur: "cp_cursor cp = ''requestUserChoice''"
  let ?g = "workflow_linear c"
  show 1: "drive fuel ?g (cp_state cp) ''requestUserChoice'' (Returns [] [''userChoice'' \<mapsto> v]) [] =
        enter fuel ?g ((cp_state cp)(''userChoice'' \<mapsto> v)) ''disambiguateAndAnswer'' []"
    by (simp add: linear_next Let_def)
  show 2: "drive_sync fuel ?g [v] (cp_state cp) ''requestUserChoice''
          (requestUserChoice (cp_state cp)) [] =
        drive fuel ?g (cp_state cp) ''requestUserChoice'' (Returns [] [''userChoice'' \<mapsto> v]) []"
    by (simp add: requestUserChoice_def interrupt_def drive_sync_nil linear_next Let_def)
  show "resume fuel ?g cps \<lparr> sessionId = sid, resume_value = v \<rparr> =
        commit cps sid (drive_sync fuel ?g [v] (cp_state cp) ''requestUserChoice''
                          (requestUserChoice (cp_state cp)) [])"
    using resume_linear [where cps = cps and sid = sid and cp = cp and p = p and fuel = fuel
                           and c = c and v = v] assms cur
    by (simp only: 1 2)
qed


theorem resume_is_synchronous_return_witness:
  "[''hitl-circular-thread'' \<mapsto> first_pause] ''hitl-circular-thread'' = Some first_pause \<and>
   cp_interrupt first_pause = Some (Question question) \<and>
   cp_cursor first_pause = ''requestChoice'' \<and>
   resume 25 (workflow_circular recorded) [''hitl-circular-thread'' \<mapsto> first_pause]
       \<lparr> sessionId = ''hitl-circular-thread'', resume_value = Str ''10'' \<rparr> =
     commit [''hitl-circular-thread'' \<mapsto> first_pause] ''hitl-circular-thread''
       (enter 25 (workflow_circular recorded)
          ((cp_state first_pause)(''userChoice'' \<mapsto> Str ''10'')) ''disambiguateSelection'' [])"
proof -
  have h1: "[''hitl-circular-thread'' \<mapsto> first_pause] ''hitl-circular-thread'' = Some first_pause"
    by simp
  have h2: "cp_interrupt first_pause = Some (Question question)"
    and h3: "cp_cursor first_pause = ''requestChoice''"
    by (simp_all add: first_pause_def)
  from h3 show ?thesis
    using h1 h2
      resume_is_synchronous_return
        [where cps = "[''hitl-circular-thread'' \<mapsto> first_pause]"
           and sid = "''hitl-circular-thread''" and cp = first_pause and p = "Question question"
           and fuel = 25 and c = recorded and v = "Str ''10''"]
    by simp
qed

subsection \<open>Channels a node does not return\<close>

lemma retrieveFlights_update:
  "\<exists>out upd. retrieveFlights c st = Returns out upd \<and> dom upd = {''candidates''}"
  by (simp add: retrieveFlights_def Let_def)

text \<open>
  C8. A merge leaves every channel that the partial update does not name as it was, and
  the node after a node that returned is entered on the merged state. \<open>requestChoice\<close>
  and \<open>requestUserChoice\<close> return \<^verbatim>\<open>userChoice\<close> only: the checkpoint of the pause holds
  the state the node was entered with, and after the resume every other channel, among
  them \<^verbatim>\<open>filteredFlights\<close> and \<^verbatim>\<open>input\<close>, has the value of the checkpoint.
  \<open>retrieveFlights\<close> returns \<^verbatim>\<open>candidates\<close> only and leaves \<^verbatim>\<open>input\<close>.
\<close>

theorem untouched_channels_keep_values:
  "(partialUpdate k = None \<longrightarrow> merge oldState partialUpdate k = oldState k) \<and>
   (next_node g cur (merge st upd) = Some nxt \<longrightarrow>
      drive fuel g st cur (Returns out upd) log =
        enter fuel g (merge st upd) nxt (log @ map Console out)) \<and>
   requestChoice st =
     Interrupts (Question question) (\<lambda>userChoice. Returns [] [''userChoice'' \<mapsto> userChoice]) \<and>
   requestUserChoice st =
     Interrupts (Question ''Which flight do you prefer?:'')
       (\<lambda>userChoice. Returns [] [''userChoice'' \<mapsto> userChoice]) \<and>
   saved (enter (Suc fuel) (workflow_circular c) st ''requestChoice'' log) =
     \<lparr> cp_state = st, cp_cursor = ''requestChoice'', cp_interrupt = Some (Question question) \<rparr> \<and>
   (cps sid = Some cp \<and> cp_cursor cp = ''requestChoice'' \<and> cp_interrupt cp = Some p \<longrightarrow>
      resume fuel (workflow_circular c) cps \<lparr> sessionId = sid, resume_value = v \<rparr> =
        commit cps sid (enter fuel (workflow_circular c) (merge (cp_state cp) [''userChoice'' \<mapsto> v])
                          ''disambiguateSelection'' []) \<and>
      merge (cp_state cp) [''userChoice'' \<mapsto> v] ''filteredFlights'' =
        cp_state cp ''filteredFlights'' \<and>
      merge (cp_state cp) [''userChoice'' \<mapsto> v] ''input'' = cp_state cp ''input'' \<and>
      (\<forall>k. k \<noteq> ''userChoice'' \<longrightarrow>
           merge (cp_state cp) [''userChoice'' \<mapsto> v] k = cp_state cp k)) \<and>
   (\<exists>out upd. retrieveFlights c st = Returns out upd \<and> dom upd = {''candidates''} \<and>
      merge st upd ''input'' = st ''input'' \<and>
      (\<forall>k. k \<noteq> ''candidates'' \<longrightarrow> merge st upd k = st k))"
proof (intro conjI impI)
  show "merge oldState partialUpdate k = oldState k" if "partialUpdate k = None"
    using that by (rule merge_frame)
  show "drive fuel g st cur (Returns out upd) log =
          enter fuel g (merge st upd) nxt (log @ map Console out)"
    if "next_node g cur (merge st upd) = Some nxt"
    using that by (simp add: Let_def)
  show "requestChoice st =
     Interrupts (Question question) (\<lambda>userChoice. Returns [] [''userChoice'' \<mapsto> userChoice])"
    by (simp add: requestChoice_def interrupt_def)
  show "requestUserChoice st =
     Interrupts (Question ''Which flight do you prefer?:'')
       (\<lambda>userChoice. Returns [] [''userChoice'' \<mapsto> userChoice])"
    by (simp add: requestUserChoice_def interrupt_def)
  show "saved (enter (Suc fuel) (workflow_circular c) st ''requestChoice'' log) =
     \<lparr> cp_state = st, cp_cursor = ''requestChoice'', cp_interrupt = Some (Question question) \<rparr>"
    by (simp add: enter_Suc [of "''requestChoice''"] circular_nodes requestChoice_def interrupt_def)
  show "\<exists>out upd. retrieveFlights c st = Returns out upd \<and> dom upd = {''candidates''} \<and>
      merge st upd ''input'' = st ''input'' \<and>
      (\<forall>k. k \<noteq> ''candidates'' \<longrightarrow> merge st upd k = st k)"
    by (simp add: retrieveFlights_def Let_def)
next
  assume a: "cps sid = Some cp \<and> cp_cursor cp = ''requestChoice'' \<and> cp_interrupt cp = Some p"
  then show "resume fuel (workflow_circular c) cps \<lparr> sessionId = sid, resume_value = v \<rparr> =
        commit cps sid (enter fuel (workflow_circular c) (merge (cp_state cp) [''userChoice'' \<mapsto> v])
                          ''disambiguateSelection'' [])"
    using resume_circular [where cps = cps and sid = sid and cp = cp and p = p and fuel = fuel
                             and c = c and v = v]
    by simp
  show "merge (cp_state cp) [''userChoice'' \<mapsto> v] ''filteredFlights'' =
        cp_state cp ''filteredFlights''"
    and "merge (cp_state cp) [''userChoice'' \<mapsto> v] ''input'' = cp_state cp ''input''"
    and "\<forall>k. k \<noteq> ''userChoice'' \<longrightarrow> merge (cp_state cp) [''userChoice'' \<mapsto> v] k = cp_state cp k"
    by simp_all
qed

theorem untouched_channels_keep_values_witness:
  "([''userChoice'' \<mapsto> Str ''10''] :: state) ''filteredFlights'' = None \<and>
   merge (cp_state first_pause) [''userChoice'' \<mapsto> Str ''10''] ''filteredFlights'' =
     Some (Docs recorded_flights) \<and>
   merge (cp_state first_pause) [''userChoice'' \<mapsto> Str ''10''] ''input'' =
     Some (Str ''Flights to Asia'') \<and>
   merge (cp_state first_pause) [''userChoice'' \<mapsto> Str ''10''] ''userChoice'' = Some (Str ''10'') \<and>
   [''hitl-circular-thread'' \<mapsto> first_pause] ''hitl-circular-thread'' = Some first_pause \<and>
   cp_cursor first_pause = ''requestChoice'' \<and>
   cp_interrupt first_pause = Some (Question question) \<and>
   resume 25 (workflow_circular recorded) [''hitl-circular-thread'' \<mapsto> first_pause]
       \<lparr> sessionId = ''hitl-circular-thread'', resume_value = Str ''10'' \<rparr> =
     commit [''hitl-circular-thread'' \<mapsto> first_pause] ''hitl-circular-thread''
       (enter 25 (workflow_circular recorded)
          (merge (cp_state first_pause) [''userChoice'' \<mapsto> Str ''10''])
          ''disambiguateSelection'' [])"
proof -
  have h1: "[''hitl-circular-thread'' \<mapsto> first_pause] ''hitl-circular-thread'' = Some first_pause"
    by simp
  have h2: "cp_interrupt first_pause = Some (Question question)"
    and h3: "cp_cursor first_pause = ''requestChoice''"
    by (simp_all add: first_pause_def)
  have h4: "merge (cp_state first_pause) [''userChoice'' \<mapsto> Str ''10''] ''userChoice'' =
              Some (Str ''10'')"
    and h5: "cp_state first_pause ''filteredFlights'' = Some (Docs recorded_flights)"
    and h6: "cp_state first_pause ''input'' = Some (Str ''Flights to Asia'')"
    by (simp_all add: first_pause_def)
  show ?thesis
    using h1 h2 h3 h4 h5 h6
      untouched_channels_keep_values
        [where partialUpdate = "[''userChoice'' \<mapsto> Str ''10'']" and k = "''filteredFlights''"
           and oldState = "cp_state first_pause"
           and cps = "[''hitl-circular-thread'' \<mapsto> first_pause]"
           and sid = "''hitl-circular-thread''" and cp = first_pause and p = "Question question"
           and fuel = 25 and c = recorded and v = "Str ''10''"]
    by simp
qed

section \<open>Calls the protocol refuses\<close>

lemma resume_not_pending:
  assumes "cps sid = None \<or> (\<exists>cp. cps sid = Some cp \<and> cp_interrupt cp = None)"
  shows "resume fuel g cps \<lparr> sessionId = sid, resume_value = v \<rparr> =
           (\<lparr> result = Failed NoPendingInterruptError, printed = [] \<rparr>, cps)"
  using assms by (auto simp: resume_def reject_def)

lemma invoke_pending:
  assumes "cps sid = Some cp" and "cp_interrupt cp = Some p"
  shows "invoke fuel g cps sid initialInput =
           (\<lparr> result = Failed ResumeRequiredError, printed = [] \<rparr>, cps)"
  using assms by (simp add: invoke_def reject_def)

lemma resume_cases:
  "(\<exists>e. resume fuel g cps cmd = reject cps e) \<or>
   (\<exists>st cur nr. resume fuel g cps cmd = commit cps (sessionId cmd) (drive fuel g st cur nr []))"
  unfolding resume_def
  by (auto split: option.splits node_result.splits simp del: drive.simps)

lemma resume_completed_not_pending:
  assumes "resume fuel g cps cmd = (r, cps')" and "completed (result r)"
  shows "\<exists>cp. cps' (sessionId cmd) = Some cp \<and> cp_interrupt cp = None"
proof -
  from resume_cases [of fuel g cps cmd] show ?thesis
  proof
    assume "\<exists>e. resume fuel g cps cmd = reject cps e"
    with assms show ?thesis
      by (auto simp: reject_def completed_def)
  next
    assume "\<exists>st cur nr. resume fuel g cps cmd =
              commit cps (sessionId cmd) (drive fuel g st cur nr [])"
    then obtain st cur nr where
      "commit cps (sessionId cmd) (drive fuel g st cur nr []) = (r, cps')"
      using assms(1) by auto
    then have r: "result r = outcome (drive fuel g st cur nr [])"
      and s: "cps' (sessionId cmd) = Some (saved (drive fuel g st cur nr []))"
      by (auto simp: commit_def)
    from assms(2) r have "cp_interrupt (saved (drive fuel g st cur nr [])) = None"
      by (simp add: saved_interrupt(1) completed_def split: outcome.splits)
    with s show ?thesis by simp
  qed
qed

section \<open>Replies of the language model that select nothing\<close>

lemma in_range_0 [simp]: "\<not> in_range i 0"
  by (simp add: in_range_def split: option.splits)

lemma disambiguateAndAnswer_no_candidates:
  assumes "get_docs st ''candidates'' = []"
  shows "disambiguateAndAnswer c st = Throws TypeError"
    and "disambiguateAndAnswer_js c st = Throws TypeError"
  using assms
  by (simp_all add: disambiguateAndAnswer_def disambiguateAndAnswer_js_def Let_def nth_opt_def
        answer_with_def)

lemma disambiguateAndAnswer_selects:
  assumes "get_docs st ''candidates'' \<noteq> []"
  shows "\<exists>f. f \<in> set (get_docs st ''candidates'') \<and>
             disambiguateAndAnswer c st =
               Returns [] [''selected'' \<mapsto> Doc f,
                           ''final'' \<mapsto> Str (formatFlightDetails (metadata f))]"
proof -
  let ?cs = "get_docs st ''candidates''"
  let ?n = "minus_one (parseInt10 (llm_invoke c (get_str st ''userChoice'') ?cs))"
  show ?thesis
  proof (cases "in_range ?n (length ?cs)")
    case True
    then have "nat (the ?n) < length ?cs"
      by (auto simp: in_range_def split: option.splits)
    then have "?cs ! nat (the ?n) \<in> set ?cs"
      by simp
    moreover from True \<open>nat (the ?n) < length ?cs\<close>
    have "disambiguateAndAnswer c st =
            Returns [] [''selected'' \<mapsto> Doc (?cs ! nat (the ?n)),
                        ''final'' \<mapsto> Str (formatFlightDetails (metadata (?cs ! nat (the ?n))))]"
      by (simp add: disambiguateAndAnswer_def Let_def nth_opt_def answer_with_def)
    ultimately show ?thesis by blast
  next
    case False
    from assms have "?cs ! 0 \<in> set ?cs"
      by simp
    moreover from False assms
    have "disambiguateAndAnswer c st =
            Returns [] [''selected'' \<mapsto> Doc (?cs ! 0),
                        ''final'' \<mapsto> Str (formatFlightDetails (metadata (?cs ! 0)))]"
      by (simp add: disambiguateAndAnswer_def Let_def nth_opt_def answer_with_def)
    ultimately show ?thesis by blast
  qed
qed

lemma disambiguateSelection_subset:
  "set (updated_flights (disambiguateSelection c st)) \<subseteq> set (get_docs st ''filteredFlights'')"
proof -
  have "i \<in> set (selectedNumbers content n) \<Longrightarrow> nat (the i) < n" for i content n
    by (auto simp: selectedNumbers_def in_range_def split: option.splits)
  moreover have "in_range i n \<Longrightarrow> nat (the i) < n" for i n
    by (auto simp: in_range_def split: option.splits)
  ultimately show ?thesis
    by (auto simp: disambiguateSelection_def updated_flights_def Let_def)
qed

text \<open>
  C3. With candidates at hand \<open>disambiguateAndAnswer\<close> answers with one of them whatever
  the language model replies, and \<open>disambiguateSelection\<close> always returns flights of the
  list it was given. Without candidates \<open>disambiguateAndAnswer\<close> throws: when the vector
  store finds nothing, the linear workflow still asks the operator and the node after
  the resume fails with a \<open>TypeError\<close>, which ends the call as a node failure.
\<close>

theorem disambiguateAndAnswer_throws_without_candidates:
  "disambiguateAndAnswer no_flights
     [''input'' \<mapsto> Str ''Flights to Tokyo'', ''candidates'' \<mapsto> Docs [],
      ''userChoice'' \<mapsto> Str ''1''] = Throws TypeError \<and>
   disambiguateAndAnswer_js no_flights
     [''input'' \<mapsto> Str ''Flights to Tokyo'', ''candidates'' \<mapsto> Docs [],
      ''userChoice'' \<mapsto> Str ''1''] = Throws TypeError \<and>
   map (\<lambda>r. case result r of Failed e \<Rightarrow> Some e | _ \<Rightarrow> None)
     (fst (main_linear 25 no_flights [''1''])) =
     [None, Some (NodeExecutionError ''disambiguateAndAnswer'' TypeError)] \<and>
   map (\<lambda>r. [x. Entered x \<leftarrow> printed r]) (fst (main_linear 25 no_flights [''1''])) =
     [[''retrieveFlights'', ''evaluateResults'', ''showResults'', ''requestUserChoice''],
      [''disambiguateAndAnswer'']]"
proof -
  have "map (\<lambda>r. case result r of Failed e \<Rightarrow> Some e | _ \<Rightarrow> None)
     (fst (main_linear 25 no_flights [''1''])) =
     [None, Some (NodeExecutionError ''disambiguateAndAnswer'' TypeError)]"
    by code_simp
  moreover have "map (\<lambda>r. [x. Entered x \<leftarrow> printed r]) (fst (main_linear 25 no_flights [''1''])) =
     [[''retrieveFlights'', ''evaluateResults'', ''showResults'', ''requestUserChoice''],
      [''disambiguateAndAnswer'']]"
    by code_simp
  ultimately show ?thesis
    by (simp add: disambiguateAndAnswer_no_candidates)
qed

section \<open>Pauses of the linear workflow\<close>

lemma linear_unknown:
  "cur \<notin> {''retrieveFlights'', ''evaluateResults'', ''showResults'', ''requestUserChoice'',
           ''disambiguateAndAnswer''} \<Longrightarrow> map_of (nodes (workflow_linear c)) cur = None"
  by (simp add: workflow_linear_def)

lemma evaluateResults_keeps_candidates:
  "\<exists>out upd. evaluateResults st = Returns out upd \<and>
     get_docs (merge st upd) ''candidates'' = get_docs st ''candidates''"
  by (simp add: evaluateResults_def Let_def)

lemma disambiguateAndAnswer_result:
  "disambiguateAndAnswer c st = Throws TypeError \<or>
   (\<exists>upd. disambiguateAndAnswer c st = Returns [] upd)"
  by (simp add: disambiguateAndAnswer_def answer_with_def Let_def split: option.splits)

lemma linear_run_candidates:
  assumes "cur \<noteq> ''retrieveFlights'' \<longrightarrow> length (get_docs st ''candidates'') \<le> 2"
    and "outcome (enter fuel (workflow_linear c) st cur log) = Suspended p"
  shows "length (get_docs (cp_state (saved (enter fuel (workflow_linear c) st cur log)))
           ''candidates'') \<le> 2"
  using assms
proof (induction fuel arbitrary: st cur log)
  case 0
  then show ?case
    by (cases "cur = ''__end__''") (simp_all add: enter_0)
next
  case (Suc fuel)
  let ?g = "workflow_linear c"
  consider (e) "cur = ''__end__''" | (r) "cur = ''retrieveFlights''"
    | (v) "cur = ''evaluateResults''" | (s) "cur = ''showResults''"
    | (q) "cur = ''requestUserChoice''" | (d) "cur = ''disambiguateAndAnswer''"
    | (u) "cur \<noteq> ''__end__''" "cur \<notin> {''retrieveFlights'', ''evaluateResults'', ''showResults'',
             ''requestUserChoice'', ''disambiguateAndAnswer''}"
    unfolding insert_iff empty_iff by argo
  then show ?case
  proof cases
    case e
    with Suc.prems show ?thesis by simp
  next
    case r
    let ?st = "st(''candidates'' \<mapsto> Docs (take 2 (similaritySearch c (st ''input'') 5)))"
    let ?log = "log @ [Entered ''retrieveFlights'',
                       Console (FoundDifferent (length (take 2 (similaritySearch c (st ''input'') 5))))]"
    have eq: "enter (Suc fuel) ?g st cur log = enter fuel ?g ?st ''evaluateResults'' ?log"
      by (simp add: r enter_Suc [of "''retrieveFlights''"] linear_nodes linear_next
            retrieveFlights_def retrieve_loop_take Let_def)
    from Suc.prems(2) eq
    have susp: "outcome (enter fuel ?g ?st ''evaluateResults'' ?log) = Suspended p"
      by simp
    have "length (get_docs ?st ''candidates'') \<le> 2"
      by simp
    then have "length (get_docs (cp_state (saved (enter fuel ?g ?st ''evaluateResults'' ?log)))
            ''candidates'') \<le> 2"
      using susp Suc.IH [where st = ?st and cur = "''evaluateResults''" and log = ?log]
      by blast
    with eq show ?thesis by simp
  next
    case v
    from evaluateResults_keeps_candidates [of st] obtain out upd
      where ev: "evaluateResults st = Returns out upd"
        and keep: "get_docs (merge st upd) ''candidates'' = get_docs st ''candidates''"
      by blast
    let ?nxt = "if truthy (merge st upd ''final'') then ''__end__'' else ''showResults''"
    let ?log = "log @ [Entered ''evaluateResults''] @ map Console out"
    have eq: "enter (Suc fuel) ?g st cur log = enter fuel ?g (merge st upd) ?nxt ?log"
      by (simp add: v enter_Suc [of "''evaluateResults''"] linear_nodes linear_next ev Let_def)
    from Suc.prems(2) eq
    have susp: "outcome (enter fuel ?g (merge st upd) ?nxt ?log) = Suspended p"
      by simp
    from Suc.prems(1) v keep have "length (get_docs (merge st upd) ''candidates'') \<le> 2"
      by simp
    then have "length (get_docs (cp_state (saved (enter fuel ?g (merge st upd) ?nxt ?log)))
            ''candidates'') \<le> 2"
      using susp Suc.IH [where st = "merge st upd" and cur = ?nxt and log = ?log]
      by blast
    with eq show ?thesis by simp
  next
    case s
    let ?log = "log @ [Entered ''showResults'', Console (FlightsFound (get_docs st ''candidates''))]"
    have eq: "enter (Suc fuel) ?g st cur log = enter fuel ?g st ''requestUserChoice'' ?log"
      by (simp add: s enter_Suc [of "''showResults''"] linear_nodes linear_next showResults_def
            Let_def)
    from Suc.prems(2) eq
    have susp: "outcome (enter fuel ?g st ''requestUserChoice'' ?log) = Suspended p"
      by simp
    from Suc.prems(1) s have "length (get_docs st ''candidates'') \<le> 2"
      by simp
    then have "length (get_docs (cp_state (saved (enter fuel ?g st ''requestUserChoice'' ?log)))
            ''candidates'') \<le> 2"
      using susp Suc.IH [where st = st and cur = "''requestUserChoice''" and log = ?log]
      by blast
    with eq show ?thesis by simp
  next
    case q
    with Suc.prems show ?thesis
      by (simp add: enter_Suc [of "''requestUserChoice''"] linear_nodes requestUserChoice_def
            interrupt_def)
  next
    case d
    from disambiguateAndAnswer_result [of c st] Suc.prems(2) show ?thesis
      by (auto simp: d enter_Suc [of "''disambiguateAndAnswer''"] linear_nodes linear_next Let_def)
  next
    case u
    with Suc.prems show ?thesis
      by (simp add: enter_unknown linear_unknown)
  qed
qed

text \<open>A fresh session of the linear workflow never pauses with more than two
  candidates, so the operator is never asked to choose among three.\<close>

lemma linear_pause_at_most_two:
  assumes "cps sid = None"
    and "invoke fuel (workflow_linear c) cps sid initialInput = (r, cps')"
    and "result r = Suspended p"
  shows "\<exists>cp. cps' sid = Some cp \<and> length (get_docs (cp_state cp) ''candidates'') \<le> 2"
  using assms linear_run_candidates [of "''retrieveFlights''" initialInput fuel c "[]" p]
  by (auto simp: invoke_def linear_start commit_def)



section \<open>The drivers keep to the protocol\<close>

lemma run_no_misuse:
  "\<not> misuse (outcome (drive fuel g st cur r log))"
  "\<not> misuse (outcome (enter fuel g st cur log))"
proof (induction fuel g st cur r log and fuel g st cur log rule: drive_enter.induct)
  case (1 fuel g st cur e log)
  show ?case by (simp add: misuse_def)
next
  case (2 fuel g st cur p k log)
  show ?case by (simp add: misuse_def)
next
  case (3 fuel g st cur out partialUpdate log)
  then show ?case by (simp add: Let_def misuse_def split: option.splits)
next
  case (4 fuel g st cur log)
  then show ?case
    by (subst enter.simps) (simp add: misuse_def split: nat.splits option.splits)
qed

lemma commit_pending_as_replied:
  "pending_as_replied (commit cps sid (drive fuel g st cur r log)) sid"
  "pending_as_replied (commit cps sid (enter fuel g st cur log)) sid"
  by (simp_all add: pending_as_replied_def commit_def saved_interrupt del: drive.simps)

lemma resume_pending_cases:
  assumes "cps sid = Some cp" and "cp_interrupt cp = Some p"
  shows "resume fuel g cps \<lparr> sessionId = sid, resume_value = v \<rparr> = reject cps GraphDefinitionError \<or>
         (\<exists>st cur nr. resume fuel g cps \<lparr> sessionId = sid, resume_value = v \<rparr> =
                          commit cps sid (drive fuel g st cur nr []))"
  using assms unfolding resume_def
  by (auto split: option.splits node_result.splits simp del: drive.simps)

lemma resume_pending_ok:
  assumes "cps sid = Some cp" and "cp_interrupt cp = Some p"
  shows "\<not> misuse (result (fst (resume fuel g cps \<lparr> sessionId = sid, resume_value = v \<rparr>))) \<and>
         pending_as_replied (resume fuel g cps \<lparr> sessionId = sid, resume_value = v \<rparr>) sid"
proof -
  have "resume fuel g cps \<lparr> sessionId = sid, resume_value = v \<rparr> = reject cps GraphDefinitionError \<or>
         (\<exists>st cur nr. resume fuel g cps \<lparr> sessionId = sid, resume_value = v \<rparr> =
                          commit cps sid (drive fuel g st cur nr []))"
    using assms
      resume_pending_cases [where cps = cps and sid = sid and cp = cp and p = p and fuel = fuel
                              and g = g and v = v]
    by blast
  then show ?thesis
  proof
  assume "resume fuel g cps \<lparr> sessionId = sid, resume_value = v \<rparr> = reject cps GraphDefinitionError"
  then show ?thesis
    by (simp add: reject_def misuse_def pending_as_replied_def)
next
  assume "\<exists>st cur nr. resume fuel g cps \<lparr> sessionId = sid, resume_value = v \<rparr> =
            commit cps sid (drive fuel g st cur nr [])"
  then obtain st cur nr where
    r: "resume fuel g cps \<lparr> sessionId = sid, resume_value = v \<rparr> =
          commit cps sid (drive fuel g st cur nr [])"
    by blast
  have "\<not> misuse (result (fst (commit cps sid (drive fuel g st cur nr []))))"
    using run_no_misuse(1) [of fuel g st cur nr "[]"] by (simp add: commit_def del: drive.simps)
  with r commit_pending_as_replied(1) [of cps sid fuel g st cur nr "[]"] show ?thesis
    by simp
qed
qed

lemma handle_interruptions_no_misuse:
  assumes "pending_as_replied (currentState, cps) sid" and "\<not> misuse (result currentState)"
  shows "\<forall>r \<in> set (fst (handle_interruptions fuel g sid answers (currentState, cps))).
           \<not> misuse (result r)"
  using assms
proof (induction answers arbitrary: currentState cps)
  case Nil
  then show ?case by simp
next
  case (Cons a answers)
  show ?case
  proof (cases "result currentState")
    case (Suspended p)
    with Cons.prems(1) obtain cp where cp: "cps sid = Some cp" "cp_interrupt cp = Some p"
      by (auto simp: pending_as_replied_def)
    let ?next = "resume fuel g cps \<lparr> sessionId = sid, resume_value = Str (trim a) \<rparr>"
    from cp resume_pending_ok [where cps = cps and sid = sid and cp = cp and p = p
                                 and fuel = fuel and g = g and v = "Str (trim a)"]
    have ok: "\<not> misuse (result (fst ?next)) \<and> pending_as_replied ?next sid"
      by blast
    then have "\<forall>r \<in> set (fst (handle_interruptions fuel g sid answers (fst ?next, snd ?next))).
            \<not> misuse (result r)"
      by (intro Cons.IH) simp_all
    with Suspended Cons.prems(2) show ?thesis
      by (simp add: Let_def split: prod.splits)
  next
    case (Completed st)
    with Cons.prems(2) show ?thesis by simp
  next
    case (Failed e)
    with Cons.prems(2) show ?thesis by simp
  next
    case StepLimit
    with Cons.prems(2) show ?thesis by simp
  qed
qed

text \<open>The drivers resume only a reply that carries an interrupt, so none of their
  calls is refused as a misuse.\<close>

lemma drivers_never_misuse:
  "\<forall>r \<in> set (fst (main_circular fuel c answers)). \<not> misuse (result r)"
  "\<forall>r \<in> set (fst (main_linear fuel c answers)). \<not> misuse (result r)"
proof -
  have "pending_as_replied (invoke fuel g Map.empty sid inp) sid \<and>
        \<not> misuse (result (fst (invoke fuel g Map.empty sid inp)))" for g sid inp
    using commit_pending_as_replied(2) run_no_misuse(2)
    by (auto simp: invoke_def reject_def misuse_def pending_as_replied_def commit_def
          saved_interrupt(2) split: option.splits)
  then have "\<forall>r \<in> set (fst (handle_interruptions fuel g sid xs (invoke fuel g Map.empty sid inp))).
               \<not> misuse (result r)" for g sid inp xs
    using handle_interruptions_no_misuse
            [of "fst (invoke fuel g Map.empty sid inp)" "snd (invoke fuel g Map.empty sid inp)"
                sid fuel g xs]
    by simp
  then show "\<forall>r \<in> set (fst (main_circular fuel c answers)). \<not> misuse (result r)"
    and "\<forall>r \<in> set (fst (main_linear fuel c answers)). \<not> misuse (result r)"
    by (simp_all add: main_circular_def main_linear_def)
qed

text \<open>A resume that ends in a new pause leaves an interrupt pending, so the same
  command sent again is taken as the answer to that pause and is not refused.\<close>

lemma resume_again_while_paused:
  assumes "cps sid = Some cp" and "cp_interrupt cp = Some p"
    and "resume fuel g cps \<lparr> sessionId = sid, resume_value = v \<rparr> = (r, cps')"
    and "result r = Suspended p'"
  shows "\<not> misuse (result (fst (resume fuel g cps' \<lparr> sessionId = sid, resume_value = v \<rparr>)))"
proof -
  from assms(1,2)
    resume_pending_ok [where cps = cps and sid = sid and cp = cp and p = p and fuel = fuel
                         and g = g and v = v]
  have "pending_as_replied (resume fuel g cps \<lparr> sessionId = sid, resume_value = v \<rparr>) sid"
    by blast
  with assms(3,4) obtain cp' where "cps' sid = Some cp'" and "cp_interrupt cp' = Some p'"
    by (auto simp: pending_as_replied_def)
  with resume_pending_ok [where cps = cps' and sid = sid and cp = cp' and p = p' and fuel = fuel
                            and g = g and v = v]
  show ?thesis by blast
qed

section \<open>A repeated resume\<close>

text \<open>A resume is refused for want of a pending interrupt, refused because the node
  of the pause is unknown, or it runs.\<close>

lemma resume_trichotomy:
  "((cps sid = None \<or> (\<exists>cp. cps sid = Some cp \<and> cp_interrupt cp = None)) \<and>
      resume fuel g cps \<lparr> sessionId = sid, resume_value = v \<rparr> =
        reject cps NoPendingInterruptError) \<or>
   ((\<exists>cp p. cps sid = Some cp \<and> cp_interrupt cp = Some p) \<and>
      resume fuel g cps \<lparr> sessionId = sid, resume_value = v \<rparr> =
        reject cps GraphDefinitionError) \<or>
   ((\<exists>cp p. cps sid = Some cp \<and> cp_interrupt cp = Some p) \<and>
      (\<exists>st cur nr. resume fuel g cps \<lparr> sessionId = sid, resume_value = v \<rparr> =
                       commit cps sid (drive fuel g st cur nr [])))"
  unfolding resume_def
  by (auto split: option.splits node_result.splits simp del: drive.simps)

lemma resume_without_pause:
  assumes "resume fuel g cps \<lparr> sessionId = sid, resume_value = v \<rparr> = (r, cps')"
    and "\<forall>p. result r \<noteq> Suspended p"
    and "result r \<noteq> Failed GraphDefinitionError"
  shows "cps' sid = None \<or> (\<exists>cp. cps' sid = Some cp \<and> cp_interrupt cp = None)"
proof -
  let ?call = "resume fuel g cps \<lparr> sessionId = sid, resume_value = v \<rparr>"
  consider
      (none) "cps sid = None \<or> (\<exists>cp. cps sid = Some cp \<and> cp_interrupt cp = None)"
             "?call = reject cps NoPendingInterruptError"
    | (unknown) "?call = reject cps GraphDefinitionError"
    | (ran) st cur nr where "?call = commit cps sid (drive fuel g st cur nr [])"
    using resume_trichotomy [of cps sid fuel g v] by blast
  then show ?thesis
  proof cases
    case none
    with assms(1) have "cps' = cps"
      by (simp add: reject_def)
    with none(1) show ?thesis by simp
  next
    case unknown
    with assms(1) have "result r = Failed GraphDefinitionError"
      by (auto simp: reject_def)
    with assms(3) show ?thesis by simp
  next
    case ran
    with assms(1) have r: "result r = outcome (drive fuel g st cur nr [])"
      and s: "cps' sid = Some (saved (drive fuel g st cur nr []))"
      by (auto simp: commit_def)
    from assms(2) r have "cp_interrupt (saved (drive fuel g st cur nr [])) = None"
      by (simp add: saved_interrupt(1) split: outcome.splits)
    with s show ?thesis by simp
  qed
qed

lemma resume_with_pause:
  assumes "resume fuel g cps \<lparr> sessionId = sid, resume_value = v \<rparr> = (r, cps')"
    and "result r = Suspended p"
  shows "\<exists>cp. cps' sid = Some cp \<and> cp_interrupt cp = Some p"
proof -
  let ?call = "resume fuel g cps \<lparr> sessionId = sid, resume_value = v \<rparr>"
  consider
      (refused) e where "?call = reject cps e"
    | (ran) st cur nr where "?call = commit cps sid (drive fuel g st cur nr [])"
    using resume_trichotomy [of cps sid fuel g v] by blast
  then show ?thesis
  proof cases
    case refused
    with assms(1) have "result r = Failed e"
      by (auto simp: reject_def)
    with assms(2) show ?thesis by simp
  next
    case ran
    with assms(1) have r: "result r = outcome (drive fuel g st cur nr [])"
      and s: "cps' sid = Some (saved (drive fuel g st cur nr []))"
      by (auto simp: commit_def)
    from assms(2) r have "cp_interrupt (saved (drive fuel g st cur nr [])) = Some p"
      by (simp add: saved_interrupt(1))
    with s show ?thesis by simp
  qed
qed

text \<open>
  C6. A resume of a session that has no checkpoint, or whose checkpoint
  holds no pending interrupt, fails with \<open>NoPendingInterruptError\<close>. In particular a
  second resume with the same command fails so whenever the first one left no
  interrupt pending: it completed the session, or it ended in a node failure or at the
  step limit. When the first resume ended in a new pause, the checkpoint holds that
  pause and the same command sent again is not refused for want of a pending
  interrupt. An \<open>invoke\<close> of a session with a pending interrupt fails with
  \<open>ResumeRequiredError\<close>. Both failures leave the checkpoint store as it was.
\<close>

theorem misuse_is_rejected:
  "(cps sid = None \<or> (\<exists>cp. cps sid = Some cp \<and> cp_interrupt cp = None) \<longrightarrow>
      resume fuel g cps \<lparr> sessionId = sid, resume_value = v \<rparr> =
        (\<lparr> result = Failed NoPendingInterruptError, printed = [] \<rparr>, cps)) \<and>
   ((\<exists>cp p. cps sid = Some cp \<and> cp_interrupt cp = Some p) \<longrightarrow>
      invoke fuel g cps sid initialInput =
        (\<lparr> result = Failed ResumeRequiredError, printed = [] \<rparr>, cps)) \<and>
   (resume fuel g cps \<lparr> sessionId = sid, resume_value = v \<rparr> = (r, cps') \<and>
    (\<forall>p. result r \<noteq> Suspended p) \<and> result r \<noteq> Failed GraphDefinitionError \<longrightarrow>
      resume fuel' g cps' \<lparr> sessionId = sid, resume_value = v \<rparr> =
        (\<lparr> result = Failed NoPendingInterruptError, printed = [] \<rparr>, cps')) \<and>
   (resume fuel g cps \<lparr> sessionId = sid, resume_value = v \<rparr> = (r, cps') \<and>
    result r = Suspended p' \<longrightarrow>
      (\<exists>cp'. cps' sid = Some cp' \<and> cp_interrupt cp' = Some p') \<and>
      result (fst (resume fuel' g cps' \<lparr> sessionId = sid, resume_value = v \<rparr>)) \<noteq>
        Failed NoPendingInterruptError)"
proof (intro conjI impI)
  assume "cps sid = None \<or> (\<exists>cp. cps sid = Some cp \<and> cp_interrupt cp = None)"
  then show "resume fuel g cps \<lparr> sessionId = sid, resume_value = v \<rparr> =
        (\<lparr> result = Failed NoPendingInterruptError, printed = [] \<rparr>, cps)"
    by (rule resume_not_pending)
next
  assume "\<exists>cp p. cps sid = Some cp \<and> cp_interrupt cp = Some p"
  then show "invoke fuel g cps sid initialInput =
        (\<lparr> result = Failed ResumeRequiredError, printed = [] \<rparr>, cps)"
    by (auto simp: invoke_pending)
next
  assume "resume fuel g cps \<lparr> sessionId = sid, resume_value = v \<rparr> = (r, cps') \<and>
    (\<forall>p. result r \<noteq> Suspended p) \<and> result r \<noteq> Failed GraphDefinitionError"
  then have "cps' sid = None \<or> (\<exists>cp. cps' sid = Some cp \<and> cp_interrupt cp = None)"
    using resume_without_pause [of fuel g cps sid v r cps'] by blast
  then show "resume fuel' g cps' \<lparr> sessionId = sid, resume_value = v \<rparr> =
        (\<lparr> result = Failed NoPendingInterruptError, printed = [] \<rparr>, cps')"
    by (rule resume_not_pending)
next
  assume a: "resume fuel g cps \<lparr> sessionId = sid, resume_value = v \<rparr> = (r, cps') \<and>
    result r = Suspended p'"
  then obtain cp' where cp': "cps' sid = Some cp'" "cp_interrupt cp' = Some p'"
    using resume_with_pause [of fuel g cps sid v r cps' p'] by blast
  then show "\<exists>cp'. cps' sid = Some cp' \<and> cp_interrupt cp' = Some p'"
    by blast
  from cp' resume_pending_ok [where cps = cps' and sid = sid and cp = cp' and p = p'
                                and fuel = fuel' and g = g and v = v]
  show "result (fst (resume fuel' g cps' \<lparr> sessionId = sid, resume_value = v \<rparr>)) \<noteq>
          Failed NoPendingInterruptError"
    by (auto simp: misuse_def)
qed


theorem misuse_is_rejected_witness:
  "(Map.empty :: store) ''hitl-circular-thread'' = None \<and>
   resume 25 (workflow_circular recorded) Map.empty
       \<lparr> sessionId = ''hitl-circular-thread'', resume_value = Str ''10'' \<rparr> =
     (\<lparr> result = Failed NoPendingInterruptError, printed = [] \<rparr>, Map.empty) \<and>
   [''hitl-circular-thread'' \<mapsto> first_pause] ''hitl-circular-thread'' = Some first_pause \<and>
   cp_interrupt first_pause = Some (Question question) \<and>
   invoke 25 (workflow_circular recorded) [''hitl-circular-thread'' \<mapsto> first_pause]
       ''hitl-circular-thread'' [''input'' \<mapsto> Str ''Flights to Asia''] =
     (\<lparr> result = Failed ResumeRequiredError, printed = [] \<rparr>,
      [''hitl-circular-thread'' \<mapsto> first_pause]) \<and>
   completed (result (fst (resume 25 (workflow_circular recorded)
                             [''hitl-circular-thread'' \<mapsto> first_pause]
                             \<lparr> sessionId = ''hitl-circular-thread'', resume_value = Str ''10'' \<rparr>))) \<and>
   result (fst (resume 25 (workflow_circular recorded)
                  (snd (resume 25 (workflow_circular recorded)
                          [''hitl-circular-thread'' \<mapsto> first_pause]
                          \<lparr> sessionId = ''hitl-circular-thread'', resume_value = Str ''10'' \<rparr>))
                  \<lparr> sessionId = ''hitl-circular-thread'', resume_value = Str ''10'' \<rparr>)) =
     Failed NoPendingInterruptError \<and>
   result (fst (resume 25 (workflow_circular recorded)
                  [''hitl-circular-thread'' \<mapsto> first_pause]
                  \<lparr> sessionId = ''hitl-circular-thread'',
                    resume_value = Str ''I am looking for flights to Japan'' \<rparr>)) =
     Suspended (Question question) \<and>
   result (fst (resume 25 (workflow_circular recorded)
                  (snd (resume 25 (workflow_circular recorded)
                          [''hitl-circular-thread'' \<mapsto> first_pause]
                          \<lparr> sessionId = ''hitl-circular-thread'',
                            resume_value = Str ''I am looking for flights to Japan'' \<rparr>))
                  \<lparr> sessionId = ''hitl-circular-thread'',
                    resume_value = Str ''I am looking for flights to Japan'' \<rparr>)) \<noteq>
     Failed NoPendingInterruptError"
proof -
  let ?g = "workflow_circular recorded"
  let ?cps = "[''hitl-circular-thread'' \<mapsto> first_pause]"
  let ?ten = "\<lparr> sessionId = ''hitl-circular-thread'', resume_value = Str ''10'' \<rparr>"
  let ?japan = "\<lparr> sessionId = ''hitl-circular-thread'',
                  resume_value = Str ''I am looking for flights to Japan'' \<rparr>"
  have h0: "(Map.empty :: store) ''hitl-circular-thread'' = None"
    by simp
  have h1: "?cps ''hitl-circular-thread'' = Some first_pause"
    by simp
  have h2: "cp_interrupt first_pause = Some (Question question)"
    by (simp add: first_pause_def)
  have "completed (result (fst (resume 25 ?g ?cps ?ten)))"
    by code_simp
  then have h3: "completed (result (fst (resume 25 ?g ?cps ?ten)))"
    and h4: "\<forall>p. result (fst (resume 25 ?g ?cps ?ten)) \<noteq> Suspended p"
    and h5: "result (fst (resume 25 ?g ?cps ?ten)) \<noteq> Failed GraphDefinitionError"
    by (auto simp: completed_def split: outcome.splits)
  have "pending_payload (fst (resume 25 ?g ?cps ?japan)) = Some (Question question)"
    by code_simp
  then have h6: "result (fst (resume 25 ?g ?cps ?japan)) = Suspended (Question question)"
    by (simp add: pending_payload_def split: outcome.splits)
  have p10: "resume 25 ?g ?cps ?ten = (fst (resume 25 ?g ?cps ?ten), snd (resume 25 ?g ?cps ?ten))"
    and pj: "resume 25 ?g ?cps ?japan =
               (fst (resume 25 ?g ?cps ?japan), snd (resume 25 ?g ?cps ?japan))"
    by simp_all
  have a: "resume 25 ?g Map.empty ?ten =
             (\<lparr> result = Failed NoPendingInterruptError, printed = [] \<rparr>, Map.empty)"
    using h0
      misuse_is_rejected
        [where cps = Map.empty and sid = "''hitl-circular-thread''" and g = ?g and fuel = 25
           and v = "Str ''10''"]
    by simp
  have b: "invoke 25 ?g ?cps ''hitl-circular-thread'' [''input'' \<mapsto> Str ''Flights to Asia''] =
             (\<lparr> result = Failed ResumeRequiredError, printed = [] \<rparr>, ?cps)"
    and c: "result (fst (resume 25 ?g (snd (resume 25 ?g ?cps ?ten)) ?ten)) =
              Failed NoPendingInterruptError"
    using h1 h2 h4 h5 p10
      misuse_is_rejected
        [where cps = ?cps and sid = "''hitl-circular-thread''" and g = ?g and fuel = 25
           and fuel' = 25 and v = "Str ''10''"
           and initialInput = "[''input'' \<mapsto> Str ''Flights to Asia'']"
           and r = "fst (resume 25 ?g ?cps ?ten)" and cps' = "snd (resume 25 ?g ?cps ?ten)"]
    by (simp_all del: prod.collapse)
  have d: "result (fst (resume 25 ?g (snd (resume 25 ?g ?cps ?japan)) ?japan)) \<noteq>
             Failed NoPendingInterruptError"
    using h6 pj
      misuse_is_rejected
        [where cps = ?cps and sid = "''hitl-circular-thread''" and g = ?g and fuel = 25
           and fuel' = 25 and v = "Str ''I am looking for flights to Japan''"
           and r = "fst (resume 25 ?g ?cps ?japan)" and cps' = "snd (resume 25 ?g ?cps ?japan)"
           and p' = "Question question"]
    by (simp del: prod.collapse)
  from h0 h1 h2 h3 h6 a b c d show ?thesis
    by blast
qed

text \<open>
  The recorded run shows a repeated resume that is accepted. The first \<open>invoke\<close> pauses
  with ten flights; the first answer leaves five and pauses again, so the session has
  progressed past its first interrupt; the same command sent a second time is taken as
  the answer to the second pause, leaves two flights and pauses once more. It does not
  fail with \<open>NoPendingInterruptError\<close>.
\<close>

theorem repeated_resume_counterexample:
  "flights_left paused_once = Some 10 \<and>
   pending_payload (fst paused_twice) = Some (Question question) \<and>
   flights_left (snd paused_twice) = Some 5 \<and>
   pending_payload (fst (resume 25 (workflow_circular recorded) (snd paused_twice) first_answer)) =
     Some (Question question) \<and>
   flights_left (snd (resume 25 (workflow_circular recorded) (snd paused_twice) first_answer)) =
     Some 2 \<and>
   result (fst (resume 25 (workflow_circular recorded) (snd paused_twice) first_answer)) \<noteq>
     Failed NoPendingInterruptError"
proof -
  have 1: "flights_left paused_once = Some 10"
    and 2: "pending_payload (fst paused_twice) = Some (Question question)"
    and 3: "flights_left (snd paused_twice) = Some 5"
    by code_simp+
  have 4: "pending_payload (fst (resume 25 (workflow_circular recorded) (snd paused_twice)
             first_answer)) = Some (Question question)"
    and 5: "flights_left (snd (resume 25 (workflow_circular recorded) (snd paused_twice)
             first_answer)) = Some 2"
    by code_simp+
  from 4 have "result (fst (resume 25 (workflow_circular recorded) (snd paused_twice)
                 first_answer)) \<noteq> Failed NoPendingInterruptError"
    by (auto simp: pending_payload_def)
  with 1 2 3 4 5 show ?thesis
    by blast
qed

end
